theory Spec2Isabelle
  imports Main
begin

section \<open>JavaScript string primitives\<close>

text \<open>
  A JavaScript string is modelled as a \<open>string\<close>: one \<open>char\<close> per code unit, read
  with \<open>of_char\<close> where the source calls \<open>charCodeAt\<close>.  The characters the
  double quotes of the inner syntax cannot hold are named here.
\<close>

abbreviation bslash :: char where "bslash \<equiv> CHR 0x5C"
abbreviation dquote :: char where "dquote \<equiv> CHR 0x22"
abbreviation newline :: char where "newline \<equiv> CHR 0x0A"
abbreviation backtick :: char where "backtick \<equiv> CHR 0x60"

text \<open>\<open>s.startsWith(p)\<close>\<close>

fun startsWith :: "string \<Rightarrow> string \<Rightarrow> bool" where
  "startsWith s [] = True"
| "startsWith [] (p # ps) = False"
| "startsWith (c # cs) (p # ps) = (c = p \<and> startsWith cs ps)"

text \<open>\<open>s.endsWith(p)\<close>\<close>

definition endsWith :: "string \<Rightarrow> string \<Rightarrow> bool" where
  "endsWith s p = startsWith (rev s) (rev p)"

text \<open>\<open>s.includes(p)\<close>: \<open>p\<close> occurs at some position of \<open>s\<close>.\<close>

fun js_includes :: "string \<Rightarrow> string \<Rightarrow> bool" where
  "js_includes [] p = (p = [])"
| "js_includes (c # cs) p = (startsWith (c # cs) p \<or> js_includes cs p)"

text \<open>
  \<open>s.replace(/c/g, r)\<close> for a pattern that matches the single character \<open>c\<close> and a
  replacement text \<open>r\<close> without substitution patterns: every occurrence is replaced,
  left to right, and the replacement is not scanned again.
\<close>

definition replaceAll :: "char \<Rightarrow> string \<Rightarrow> string \<Rightarrow> string" where
  "replaceAll c r s = concat (map (\<lambda>x. if x = c then r else [x]) s)"

text \<open>\<open>/[...]/.test(s)\<close> for a character class given by its members.\<close>

definition test_class :: "(char \<Rightarrow> bool) \<Rightarrow> string \<Rightarrow> bool" where
  "test_class cls s = list_ex cls s"

section \<open>Shell escaping (kdco-primitives/shell.ts)\<close>

definition escapeBash :: "string \<Rightarrow> string" where
  "escapeBash s =
     replaceAll newline '' ''
       (replaceAll CHR ''!'' [bslash, CHR ''!'']
         (replaceAll backtick [bslash, backtick]
           (replaceAll CHR ''$'' [bslash, CHR ''$'']
             (replaceAll dquote [bslash, dquote]
               (replaceAll bslash [bslash, bslash] s)))))"

definition escapeAppleScript :: "string \<Rightarrow> string" where
  "escapeAppleScript str =
     replaceAll CHR ''$'' [bslash, CHR ''$'']
       (replaceAll dquote [bslash, dquote]
         (replaceAll bslash [bslash, bslash] str))"

definition escapeBatch :: "string \<Rightarrow> string" where
  "escapeBatch s =
     replaceAll CHR ''|'' ''^|''
       (replaceAll CHR ''>'' ''^>''
         (replaceAll CHR ''<'' ''^<''
           (replaceAll CHR ''&'' ''^&''
             (replaceAll CHR ''^'' ''^^''
               (replaceAll CHR ''%'' ''%%'' s)))))"

text \<open>
  The escaping rules as the specification words them, one character at a time: what each
  character of the input becomes in the output.
\<close>

definition bash_rule :: "char \<Rightarrow> string" where
  "bash_rule c =
     (if c \<in> {bslash, dquote, CHR ''$'', backtick, CHR ''!''} then [bslash, c]
      else if c = newline then '' '' else [c])"

definition applescript_rule :: "char \<Rightarrow> string" where
  "applescript_rule c = (if c \<in> {bslash, dquote, CHR ''$''} then [bslash, c] else [c])"

definition batch_rule :: "char \<Rightarrow> string" where
  "batch_rule c =
     (if c = CHR ''%'' \<or> c = CHR ''^'' then [c, c]
      else if c \<in> {CHR ''&'', CHR ''<'', CHR ''>'', CHR ''|''} then [CHR ''^'', c]
      else [c])"

section \<open>Branch name validation (worktree/shared/git.ts)\<close>

definition isValidBranchName :: "string \<Rightarrow> bool" where
  "isValidBranchName name =
     (if list_ex (\<lambda>c. (of_char c :: nat) \<le> 0x1f \<or> (of_char c :: nat) = 0x7f) name then False
      else if test_class (\<lambda>c. c \<in> set (''~^:?*[]'' @ [bslash] @ '';&|'' @ [backtick] @ ''$()'')) name
        then False
      else True)"

text \<open>
  \<open>branchNameSchema\<close> is a chain of checks on a string, each with its message.  A check
  that fails adds its issue and the chain goes on, so \<open>issues\<close> lists the messages of
  the failed checks in the order of the chain, and \<open>safeParse\<close> succeeds when there is
  none.
\<close>

definition branchNameSchema :: "((string \<Rightarrow> bool) \<times> string) list" where
  "branchNameSchema =
    [(\<lambda>name. 1 \<le> length name, ''Branch name cannot be empty''),
     (\<lambda>name. length name \<le> 255, ''Branch name too long''),
     (\<lambda>name. \<not> startsWith name ''-'',
        ''Branch name cannot start with '' @ [CHR 0x27] @ ''-'' @ [CHR 0x27]
          @ '' (prevents option injection)''),
     (\<lambda>name. \<not> startsWith name ''/'' \<and> \<not> endsWith name ''/'',
        ''Branch name cannot start or end with '' @ [CHR 0x27] @ ''/'' @ [CHR 0x27]),
     (\<lambda>name. \<not> js_includes name ''//'',
        ''Branch name cannot contain '' @ [CHR 0x27] @ ''//'' @ [CHR 0x27]),
     (\<lambda>name. \<not> js_includes name (''@'' @ ''{''),
        ''Branch name cannot contain '' @ [CHR 0x27] @ (''@'' @ ''{'') @ [CHR 0x27]
          @ '' (git reflog syntax)''),
     (\<lambda>name. \<not> js_includes name ''..'',
        ''Branch name cannot contain '' @ [CHR 0x27] @ ''..'' @ [CHR 0x27]),
     (\<lambda>name. \<not> test_class (\<lambda>c. (of_char c :: nat) \<le> 0x1f \<or> c = CHR 0x7F
                    \<or> c \<in> set ('' ~^:?*[]'' @ [bslash])) name,
        ''Branch name contains invalid characters''),
     (\<lambda>name. isValidBranchName name, ''Contains invalid git ref characters''),
     (\<lambda>name. \<not> startsWith name ''.'' \<and> \<not> endsWith name ''.'',
        ''Cannot start or end with dot''),
     (\<lambda>name. \<not> endsWith name ''.lock'', ''Cannot end with .lock'')]"

definition issues :: "((string \<Rightarrow> bool) \<times> string) list \<Rightarrow> string \<Rightarrow> string list" where
  "issues schema name = map snd (filter (\<lambda>(ok, msg). \<not> ok name) schema)"

definition safeParse :: "((string \<Rightarrow> bool) \<times> string) list \<Rightarrow> string \<Rightarrow> string list + string" where
  "safeParse schema name = (if issues schema name = [] then Inr name else Inl (issues schema name))"

section \<open>POSIX path functions (node:path)\<close>

text \<open>
  The functions of \<open>node:path\<close> the program calls, on a POSIX host (separator \<open>/\<close>),
  written at the level of path segments: a path is cut at every \<open>/\<close>, empty segments
  and \<open>.\<close> are dropped, \<open>..\<close> removes the segment before it.
\<close>

fun split_slash :: "string \<Rightarrow> string list" where
  "split_slash [] = [[]]"
| "split_slash (c # cs) =
     (if c = CHR ''/'' then [] # split_slash cs
      else (case split_slash cs of [] \<Rightarrow> [[c]] | s # ss \<Rightarrow> (c # s) # ss))"

fun join_slash :: "string list \<Rightarrow> string" where
  "join_slash [] = []"
| "join_slash [s] = s"
| "join_slash (s # t # ts) = s @ ''/'' @ join_slash (t # ts)"

text \<open>
  One step of \<open>normalizeString\<close>: the segments kept so far are held last first.  A
  \<open>..\<close> is kept only where there is nothing to remove and the path may rise above its
  start (\<open>allowAboveRoot\<close>).
\<close>

definition normalize_step :: "bool \<Rightarrow> string list \<Rightarrow> string \<Rightarrow> string list" where
  "normalize_step allowAboveRoot kept seg =
     (if seg = [] \<or> seg = ''.'' then kept
      else if seg = ''..'' then
        (case kept of
           [] \<Rightarrow> if allowAboveRoot then [''..''] else []
         | s # rest \<Rightarrow>
             if s = ''..'' then (if allowAboveRoot then ''..'' # kept else kept) else rest)
      else seg # kept)"

definition normalizeString :: "string \<Rightarrow> bool \<Rightarrow> string" where
  "normalizeString path allowAboveRoot =
     join_slash (rev (foldl (normalize_step allowAboveRoot) [] (split_slash path)))"

definition path_isAbsolute :: "string \<Rightarrow> bool" where
  "path_isAbsolute path = (case path of [] \<Rightarrow> False | c # _ \<Rightarrow> c = CHR ''/'')"

text \<open>
  \<open>path.resolve(...args)\<close>: the arguments are taken from the right until the path is
  absolute, the working directory of the process coming last; empty arguments are skipped.
\<close>

fun resolve_args :: "string list \<Rightarrow> string \<times> bool \<Rightarrow> string \<times> bool" where
  "resolve_args [] acc = acc"
| "resolve_args (p # ps) (resolvedPath, resolvedAbsolute) =
     (if resolvedAbsolute then (resolvedPath, resolvedAbsolute)
      else if p = [] then resolve_args ps (resolvedPath, resolvedAbsolute)
      else resolve_args ps (p @ ''/'' @ resolvedPath, path_isAbsolute p))"

definition path_resolve :: "string \<Rightarrow> string list \<Rightarrow> string" where
  "path_resolve cwd args =
     (case resolve_args (rev args @ [cwd]) ([], False) of
        (resolvedPath, resolvedAbsolute) \<Rightarrow>
          (let normalized = normalizeString resolvedPath (\<not> resolvedAbsolute)
           in if resolvedAbsolute then ''/'' @ normalized
              else if normalized \<noteq> [] then normalized else ''.''))"

definition path_normalize :: "string \<Rightarrow> string" where
  "path_normalize path =
     (if path = [] then ''.''
      else
        (let isAbsolute = path_isAbsolute path;
             trailingSeparator = (last path = CHR ''/'');
             normalized = normalizeString path (\<not> isAbsolute)
         in if normalized = [] then
              (if isAbsolute then ''/'' else if trailingSeparator then ''./'' else ''.'')
            else
              (let withTrailing = (if trailingSeparator then normalized @ ''/'' else normalized)
               in if isAbsolute then ''/'' @ withTrailing else withTrailing)))"

definition path_join :: "string list \<Rightarrow> string" where
  "path_join args =
     (case filter (\<lambda>arg. arg \<noteq> []) args of
        [] \<Rightarrow> ''.''
      | a # as \<Rightarrow> path_normalize (join_slash (a # as)))"

text \<open>
  \<open>path.dirname(path)\<close>: from the right and never looking at the first character, the
  trailing slashes are passed, then the last segment, up to the slash before it.
\<close>

definition path_dirname :: "string \<Rightarrow> string" where
  "path_dirname path =
     (case path of
        [] \<Rightarrow> ''.''
      | c # cs \<Rightarrow>
          (let hasRoot = (c = CHR ''/'');
               rest = dropWhile (\<lambda>x. x \<noteq> CHR ''/'') (dropWhile (\<lambda>x. x = CHR ''/'') (rev cs))
           in if rest = [] then (if hasRoot then ''/'' else ''.'')
              else if hasRoot \<and> length rest = 1 then ''//''
              else take (length rest) path))"

section \<open>Path safety (worktree/shared/sync.ts)\<close>

text \<open>
  \<open>isPathSafe\<close> answers with a boolean and may warn through the logger: the second
  component is the list of messages it passes to \<open>log.warn\<close>.  The working directory of
  the process, which \<open>path.resolve\<close> reads, is the parameter \<open>cwd\<close>.
\<close>

definition isPathSafe :: "string \<Rightarrow> string \<Rightarrow> string \<Rightarrow> bool \<times> string list" where
  "isPathSafe cwd filePath baseDir =
     (if path_isAbsolute filePath then
        (False, [''[worktree] Rejected absolute path: '' @ filePath])
      else if js_includes filePath ''..'' then
        (False, [''[worktree] Rejected path traversal: '' @ filePath])
      else
        (let resolved = path_resolve cwd [baseDir, filePath]
         in if \<not> startsWith resolved (baseDir @ ''/'') \<and> resolved \<noteq> baseDir then
              (False, [''[worktree] Path escapes base directory: '' @ filePath])
            else (True, [])))"



section \<open>Workspace root discovery (worktree/multi-repo/discovery.ts)\<close>

text \<open>
  What \<open>lstat\<close> tells of a path: a regular file, a directory or a symbolic link with its
  target; \<open>None\<close> where \<open>lstat\<close> throws (nothing there, or no access).
\<close>

datatype fnode = File | Dir | Symlink string

definition workspace_root_not_found :: "string \<Rightarrow> string" where
  "workspace_root_not_found startDir =
     ''Workspace root not found (no main/ subdirectory within 10 levels from ''
       @ startDir @ '')''"

function findWorkspaceRoot_loop ::
  "(string \<Rightarrow> fnode option) \<Rightarrow> string \<Rightarrow> string \<Rightarrow> nat \<Rightarrow> string + string" where
  "findWorkspaceRoot_loop lstat_at startDir currentDir levelsUp =
     (if currentDir \<noteq> ''/'' \<and> levelsUp < 10 then
        (case lstat_at (path_join [currentDir, ''main'']) of
           Some Dir \<Rightarrow> Inr currentDir
         | _ \<Rightarrow> findWorkspaceRoot_loop lstat_at startDir (path_dirname currentDir) (levelsUp + 1))
      else
        Inl (workspace_root_not_found startDir))"
  by pat_completeness auto
termination
  by (relation "measure (\<lambda>(lstat_at, startDir, currentDir, levelsUp). 10 - levelsUp)") auto

declare findWorkspaceRoot_loop.simps [simp del]

definition findWorkspaceRoot ::
  "(string \<Rightarrow> fnode option) \<Rightarrow> string \<Rightarrow> string \<Rightarrow> string + string" where
  "findWorkspaceRoot lstat_at cwd startDir =
     (if startDir = [] then Inl ''startDir must be a non-empty string''
      else findWorkspaceRoot_loop lstat_at startDir (path_resolve cwd [startDir]) 0)"

text \<open>
  The directories the search looks at, nearest first: the directory itself and its
  ancestors by \<open>path.dirname\<close>, at most \<open>n\<close> of them, the root \<open>/\<close> excluded.
\<close>

fun inspected :: "nat \<Rightarrow> string \<Rightarrow> string list" where
  "inspected 0 dir = []"
| "inspected (Suc n) dir = (if dir = ''/'' then [] else dir # inspected n (path_dirname dir))"

definition has_main :: "(string \<Rightarrow> fnode option) \<Rightarrow> string \<Rightarrow> bool" where
  "has_main lstat_at dir = (lstat_at (path_join [dir, ''main'']) = Some Dir)"

text \<open>
  The search from \<open>/ws/feature-x/api/src\<close> in a workspace whose \<open>/ws/main\<close> is a
  directory, while \<open>/ws/feature-x/main\<close> is a regular file and the root holds a
  directory \<open>/main\<close> as well.
\<close>

definition example_lstat :: "string \<Rightarrow> fnode option" where
  "example_lstat p =
     (if p = ''/ws/main'' \<or> p = ''/main'' then Some Dir
      else if p = ''/ws/feature-x/main'' then Some File else None)"

section \<open>Session state store (worktree/state.ts)\<close>

text \<open>
  The two tables of the SQLite database, each a list of rows.  \<open>sessions\<close> has the
  primary key \<open>id\<close>; \<open>pending_operations\<close> has the integer primary key \<open>id\<close> with
  \<open>CHECK (id = 1)\<close>, a type tag, and a \<open>session_id\<close> that may be NULL.
\<close>

record session =
  s_id :: string
  s_branch :: string
  s_path :: string
  s_createdAt :: string

record pendingSpawn =
  ps_branch :: string
  ps_path :: string
  ps_sessionId :: string

record pendingDelete =
  pd_branch :: string
  pd_path :: string

record pending_row =
  p_id :: int
  p_type :: string
  p_branch :: string
  p_path :: string
  p_session_id :: "string option"

record database =
  sessions :: "session list"
  pending_operations :: "pending_row list"

text \<open>
  The constraints SQLite keeps on every state of the two tables: primary keys are
  unique, and a row of \<open>pending_operations\<close> has \<open>id = 1\<close>.
\<close>

definition table_constraints :: "database \<Rightarrow> bool" where
  "table_constraints db =
     (distinct (map s_id (sessions db))
      \<and> distinct (map p_id (pending_operations db))
      \<and> list_all (\<lambda>r. p_id r = 1) (pending_operations db))"

text \<open>
  \<open>INSERT OR REPLACE\<close>: the rows whose primary key equals the new row's are deleted,
  then the new row is inserted.
\<close>

definition insert_or_replace :: "('r \<Rightarrow> 'k) \<Rightarrow> 'r \<Rightarrow> 'r list \<Rightarrow> 'r list" where
  "insert_or_replace key row rows = filter (\<lambda>r. key r \<noteq> key row) rows @ [row]"

text \<open>\<open>DELETE FROM t WHERE cond\<close>\<close>

definition delete_where :: "('r \<Rightarrow> bool) \<Rightarrow> 'r list \<Rightarrow> 'r list" where
  "delete_where cond rows = filter (\<lambda>r. \<not> cond r) rows"

text \<open>\<open>stmt.get()\<close> of a \<open>SELECT ... WHERE cond\<close>: the first row found, or null.\<close>

definition select_first :: "('r \<Rightarrow> bool) \<Rightarrow> 'r list \<Rightarrow> 'r option" where
  "select_first cond rows = find cond rows"

text \<open>
  The schemas at the boundary require every field to be a non-empty string
  (\<open>z.string().min(1)\<close>); \<open>parse\<close> throws a \<open>ZodError\<close> naming the fields that are
  empty, in the order of the schema.
\<close>

datatype state_error = ZodError "string list"

definition empty_fields :: "(string \<times> string) list \<Rightarrow> string list" where
  "empty_fields kvs = map fst (filter (\<lambda>(name, v). \<not> 1 \<le> length v) kvs)"

definition sessionSchema_parse :: "session \<Rightarrow> state_error + session" where
  "sessionSchema_parse s =
     (case empty_fields [(''id'', s_id s), (''branch'', s_branch s), (''path'', s_path s),
                         (''createdAt'', s_createdAt s)] of
        [] \<Rightarrow> Inr s
      | e # es \<Rightarrow> Inl (ZodError (e # es)))"

definition pendingSpawnSchema_parse :: "pendingSpawn \<Rightarrow> state_error + pendingSpawn" where
  "pendingSpawnSchema_parse s =
     (case empty_fields [(''branch'', ps_branch s), (''path'', ps_path s),
                         (''sessionId'', ps_sessionId s)] of
        [] \<Rightarrow> Inr s
      | e # es \<Rightarrow> Inl (ZodError (e # es)))"

definition pendingDeleteSchema_parse :: "pendingDelete \<Rightarrow> state_error + pendingDelete" where
  "pendingDeleteSchema_parse d =
     (case empty_fields [(''branch'', pd_branch d), (''path'', pd_path d)] of
        [] \<Rightarrow> Inr d
      | e # es \<Rightarrow> Inl (ZodError (e # es)))"

subsection \<open>Session CRUD\<close>

definition addSession :: "database \<Rightarrow> session \<Rightarrow> state_error + database" where
  "addSession db session =
     (case sessionSchema_parse session of
        Inl err \<Rightarrow> Inl err
      | Inr parsed \<Rightarrow>
          Inr (db\<lparr>sessions :=
                 insert_or_replace s_id
                   \<lparr>s_id = s_id parsed, s_branch = s_branch parsed, s_path = s_path parsed,
                    s_createdAt = s_createdAt parsed\<rparr>
                   (sessions db)\<rparr>))"

definition getSession :: "database \<Rightarrow> string \<Rightarrow> session option" where
  "getSession db sessionId =
     (if sessionId = [] then None
      else (case select_first (\<lambda>r. s_id r = sessionId) (sessions db) of
              None \<Rightarrow> None
            | Some row \<Rightarrow>
                Some \<lparr>s_id = s_id row, s_branch = s_branch row, s_path = s_path row,
                      s_createdAt = s_createdAt row\<rparr>))"

definition removeSession :: "database \<Rightarrow> string \<Rightarrow> database" where
  "removeSession db branch =
     (if branch = [] then db
      else db\<lparr>sessions := delete_where (\<lambda>r. s_branch r = branch) (sessions db)\<rparr>)"

text \<open>
  The database a caller goes on with after a call of \<open>addSession\<close>: a call that throws
  has written nothing.
\<close>

definition after_addSession :: "database \<Rightarrow> session \<Rightarrow> database" where
  "after_addSession db session =
     (case addSession db session of Inl err \<Rightarrow> db | Inr db' \<Rightarrow> db')"

subsection \<open>Pending operations\<close>

definition getPendingSpawn :: "database \<Rightarrow> pendingSpawn option" where
  "getPendingSpawn db =
     (case select_first (\<lambda>r. p_id r = 1 \<and> p_type r = ''spawn'') (pending_operations db) of
        None \<Rightarrow> None
      | Some row \<Rightarrow>
          Some \<lparr>ps_branch = p_branch row, ps_path = p_path row,
                ps_sessionId = (case p_session_id row of None \<Rightarrow> [] | Some i \<Rightarrow> i)\<rparr>)"

definition getPendingDelete :: "database \<Rightarrow> pendingDelete option" where
  "getPendingDelete db =
     (case select_first (\<lambda>r. p_id r = 1 \<and> p_type r = ''delete'') (pending_operations db) of
        None \<Rightarrow> None
      | Some row \<Rightarrow> Some \<lparr>pd_branch = p_branch row, pd_path = p_path row\<rparr>)"

text \<open>
  The setters return the warnings they log (to the client, or to the console) and the
  database after the \<open>INSERT OR REPLACE\<close>.  The arrow of the source's messages
  (U+2192) is written \<open>->\<close>.
\<close>

definition setPendingSpawn ::
  "database \<Rightarrow> pendingSpawn \<Rightarrow> state_error + string list \<times> database" where
  "setPendingSpawn db spawn =
     (case pendingSpawnSchema_parse spawn of
        Inl err \<Rightarrow> Inl err
      | Inr parsed \<Rightarrow>
          (let existingSpawn = getPendingSpawn db;
               existingDelete = getPendingDelete db;
               warnings =
                 (case existingSpawn of
                    Some es \<Rightarrow>
                      [''Replacing pending spawn: '' @ [dquote] @ ps_branch es @ [dquote]
                         @ '' -> '' @ [dquote] @ ps_branch parsed @ [dquote]]
                  | None \<Rightarrow>
                      (case existingDelete of
                         Some ed \<Rightarrow>
                           [''Pending spawn replacing pending delete for: '' @ [dquote]
                              @ pd_branch ed @ [dquote]]
                       | None \<Rightarrow> []))
           in Inr (warnings,
                   db\<lparr>pending_operations :=
                        insert_or_replace p_id
                          \<lparr>p_id = 1, p_type = ''spawn'', p_branch = ps_branch parsed,
                           p_path = ps_path parsed, p_session_id = Some (ps_sessionId parsed)\<rparr>
                          (pending_operations db)\<rparr>)))"

definition clearPendingSpawn :: "database \<Rightarrow> database" where
  "clearPendingSpawn db =
     db\<lparr>pending_operations :=
          delete_where (\<lambda>r. p_id r = 1 \<and> p_type r = ''spawn'') (pending_operations db)\<rparr>"

definition setPendingDelete ::
  "database \<Rightarrow> pendingDelete \<Rightarrow> state_error + string list \<times> database" where
  "setPendingDelete db del =
     (case pendingDeleteSchema_parse del of
        Inl err \<Rightarrow> Inl err
      | Inr parsed \<Rightarrow>
          (let existingDelete = getPendingDelete db;
               existingSpawn = getPendingSpawn db;
               warnings =
                 (case existingDelete of
                    Some ed \<Rightarrow>
                      [''Replacing pending delete: '' @ [dquote] @ pd_branch ed @ [dquote]
                         @ '' -> '' @ [dquote] @ pd_branch parsed @ [dquote]]
                  | None \<Rightarrow>
                      (case existingSpawn of
                         Some es \<Rightarrow>
                           [''Pending delete replacing pending spawn for: '' @ [dquote]
                              @ ps_branch es @ [dquote]]
                       | None \<Rightarrow> []))
           in Inr (warnings,
                   db\<lparr>pending_operations :=
                        insert_or_replace p_id
                          \<lparr>p_id = 1, p_type = ''delete'', p_branch = pd_branch parsed,
                           p_path = pd_path parsed, p_session_id = None\<rparr>
                          (pending_operations db)\<rparr>)))"

definition clearPendingDelete :: "database \<Rightarrow> database" where
  "clearPendingDelete db =
     db\<lparr>pending_operations :=
          delete_where (\<lambda>r. p_id r = 1 \<and> p_type r = ''delete'') (pending_operations db)\<rparr>"

text \<open>
  A caller's sequence of pending-operation calls.  A call that throws leaves the database
  as it was; the sequence goes on with the next call.
\<close>

datatype pending_call =
    SetPendingSpawn pendingSpawn
  | SetPendingDelete pendingDelete
  | ClearPendingSpawn
  | ClearPendingDelete

fun run_call :: "database \<Rightarrow> pending_call \<Rightarrow> database" where
  "run_call db (SetPendingSpawn spawn) =
     (case setPendingSpawn db spawn of Inl err \<Rightarrow> db | Inr (warnings, db') \<Rightarrow> db')"
| "run_call db (SetPendingDelete del) =
     (case setPendingDelete db del of Inl err \<Rightarrow> db | Inr (warnings, db') \<Rightarrow> db')"
| "run_call db ClearPendingSpawn = clearPendingSpawn db"
| "run_call db ClearPendingDelete = clearPendingDelete db"

definition run_calls :: "database \<Rightarrow> pending_call list \<Rightarrow> database" where
  "run_calls db calls = foldl run_call db calls"

subsection \<open>Example states and arguments\<close>

definition empty_database :: database where
  "empty_database = \<lparr>sessions = [], pending_operations = []\<rparr>"

definition session_one :: session where
  "session_one = \<lparr>s_id = ''ses_1'', s_branch = ''feature/a'', s_path = ''/wt/feature/a'',
                  s_createdAt = ''2025-01-01T10:00:00Z''\<rparr>"

definition session_one_again :: session where
  "session_one_again = \<lparr>s_id = ''ses_1'', s_branch = ''feature/b'', s_path = ''/wt/feature/b'',
                        s_createdAt = ''2025-01-02T10:00:00Z''\<rparr>"

definition session_one_no_branch :: session where
  "session_one_no_branch = \<lparr>s_id = ''ses_1'', s_branch = [], s_path = ''/wt/feature/b'',
                            s_createdAt = ''2025-01-02T10:00:00Z''\<rparr>"

definition spawn_a :: pendingSpawn where
  "spawn_a = \<lparr>ps_branch = ''feature/a'', ps_path = ''/wt/feature/a'', ps_sessionId = ''ses_1''\<rparr>"

definition delete_b :: pendingDelete where
  "delete_b = \<lparr>pd_branch = ''feature/b'', pd_path = ''/wt/feature/b''\<rparr>"

definition delete_no_branch :: pendingDelete where
  "delete_no_branch = \<lparr>pd_branch = [], pd_path = ''/wt/feature/b''\<rparr>"

definition session_two :: session where
  "session_two = \<lparr>s_id = ''ses_2'', s_branch = ''feature/c'', s_path = ''/wt/feature/c'',
                  s_createdAt = ''2025-01-03T10:00:00Z''\<rparr>"

definition spawn_no_path :: pendingSpawn where
  "spawn_no_path = \<lparr>ps_branch = ''feature/a'', ps_path = [], ps_sessionId = ''ses_1''\<rparr>"

section \<open>The host: file system, processes, logger\<close>

text \<open>
  Every call the program makes to the outside is recorded, in order, in the trace of the
  world: the calls of the logger, of \<open>node:fs/promises\<close>, of \<open>Bun.file\<close> and
  \<open>Bun.write\<close>, the processes it spawns and the terminal it opens.  The world also holds
  what \<open>lstat\<close> tells of every path.
\<close>

datatype level = Debug | Info | Warn | Error

datatype event =
    Log level string
  | Lstat string
  | Stat string
  | Readdir string
  | Exists string
  | ReadText string
  | Mkdir string
  | Rm string
  | MakeSymlink string string
  | Write string
  | CopyFile string string
  | Git "string list" string
  | Bash string string
  | OpenTerminal string string string

type_synonym filesystem = "string \<Rightarrow> fnode option"

record world =
  files :: filesystem
  events :: "event list"

text \<open>
  How a spawned process ends: with an exit code, its standard output and its standard
  error, or not at all when the spawn throws.
\<close>

datatype process_result = Exited nat string string | SpawnFailed string

record sync_config =
  sync_copyFiles :: "string list"
  sync_symlinkDirs :: "string list"
  sync_exclude :: "string list"

record hooks_config =
  hooks_postCreate :: "string list"
  hooks_preDelete :: "string list"

record worktreeConfig =
  sync :: sync_config
  hooks :: hooks_config

text \<open>
  What the JSONC parser and \<open>worktreeConfigSchema.parse\<close> make of a configuration
  text: \<open>undefined\<close> from the parser, a rejection by the schema, or a configuration.
\<close>

datatype parsed_config = Undefined | Rejected string | Parsed worktreeConfig

text \<open>
  What the program cannot decide is a parameter: the answers of the host to the
  calls, each a function of the call and of the file system at the time.  An error
  text stands for a thrown exception.  A process may change the file system.
\<close>

record host =
  process_cwd :: string
  readdir_result :: "string \<Rightarrow> filesystem \<Rightarrow> string + string list"
  stat_result :: "string \<Rightarrow> filesystem \<Rightarrow> fnode option"
  exists_result :: "string \<Rightarrow> filesystem \<Rightarrow> bool"
  text_result :: "string \<Rightarrow> filesystem \<Rightarrow> string + string"
  mkdir_error :: "string \<Rightarrow> filesystem \<Rightarrow> string option"
  rm_error :: "string \<Rightarrow> filesystem \<Rightarrow> string option"
  symlink_error :: "string \<Rightarrow> string \<Rightarrow> filesystem \<Rightarrow> string option"
  write_error :: "string \<Rightarrow> filesystem \<Rightarrow> string option"
  git_process :: "string list \<Rightarrow> string \<Rightarrow> filesystem \<Rightarrow> process_result \<times> filesystem"
  bash_process :: "string \<Rightarrow> string \<Rightarrow> filesystem \<Rightarrow> process_result \<times> filesystem"
  terminal_result :: "string \<Rightarrow> string \<Rightarrow> string \<Rightarrow> filesystem \<Rightarrow> string option"
  jsonc_parse :: "string \<Rightarrow> parsed_config"

definition emit :: "event \<Rightarrow> world \<Rightarrow> world" where
  "emit e w = w\<lparr>events := events w @ [e]\<rparr>"

definition log :: "level \<Rightarrow> string \<Rightarrow> world \<Rightarrow> world" where
  "log l msg w = emit (Log l msg) w"

text \<open>\<open>String(error)\<close> of a thrown \<open>Error\<close> with the given message.\<close>

definition error_string :: "string \<Rightarrow> string" where
  "error_string msg = ''Error: '' @ msg"

subsection \<open>File system calls\<close>

definition lstat :: "string \<Rightarrow> world \<Rightarrow> fnode option \<times> world" where
  "lstat p w = (files w p, emit (Lstat p) w)"

definition stat :: "host \<Rightarrow> string \<Rightarrow> world \<Rightarrow> fnode option \<times> world" where
  "stat h p w = (stat_result h p (files w), emit (Stat p) w)"

definition readdir :: "host \<Rightarrow> string \<Rightarrow> world \<Rightarrow> (string + string list) \<times> world" where
  "readdir h p w = (readdir_result h p (files w), emit (Readdir p) w)"

definition file_exists :: "host \<Rightarrow> string \<Rightarrow> world \<Rightarrow> bool \<times> world" where
  "file_exists h p w = (exists_result h p (files w), emit (Exists p) w)"

definition file_text :: "host \<Rightarrow> string \<Rightarrow> world \<Rightarrow> (string + string) \<times> world" where
  "file_text h p w = (text_result h p (files w), emit (ReadText p) w)"

text \<open>
  \<open>mkdir(p, {recursive: true})\<close>: where it does not throw, \<open>p\<close> and each of its
  ancestors that was missing is a directory.
\<close>

fun ancestors :: "nat \<Rightarrow> string \<Rightarrow> string list" where
  "ancestors 0 p = []"
| "ancestors (Suc n) p =
     (if path_dirname p = p then [] else path_dirname p # ancestors n (path_dirname p))"

definition make_directories :: "string \<Rightarrow> filesystem \<Rightarrow> filesystem" where
  "make_directories p fs =
     (\<lambda>q. if q \<in> set (p # ancestors (length p) p) \<and> fs q = None then Some Dir else fs q)"

definition mkdir :: "host \<Rightarrow> string \<Rightarrow> world \<Rightarrow> (string + unit) \<times> world" where
  "mkdir h p w =
     (case mkdir_error h p (files w) of
        Some err \<Rightarrow> (Inl err, emit (Mkdir p) w)
      | None \<Rightarrow> (Inr (), (emit (Mkdir p) w)\<lparr>files := make_directories p (files w)\<rparr>))"

text \<open>
  \<open>rm(p, {recursive: true, force: true})\<close>: where it does not throw, nothing is left
  at \<open>p\<close> nor below it.
\<close>

definition remove_tree :: "string \<Rightarrow> filesystem \<Rightarrow> filesystem" where
  "remove_tree p fs = (\<lambda>q. if q = p \<or> startsWith q (p @ ''/'') then None else fs q)"

definition rm :: "host \<Rightarrow> string \<Rightarrow> world \<Rightarrow> (string + unit) \<times> world" where
  "rm h p w =
     (case rm_error h p (files w) of
        Some err \<Rightarrow> (Inl err, emit (Rm p) w)
      | None \<Rightarrow> (Inr (), (emit (Rm p) w)\<lparr>files := remove_tree p (files w)\<rparr>))"

text \<open>
  \<open>symlink(target, p, "dir")\<close> throws where something is at \<open>p\<close> already; where it
  does not throw, \<open>p\<close> is a symbolic link to \<open>target\<close>, kept as it was given.
\<close>

definition symlink :: "host \<Rightarrow> string \<Rightarrow> string \<Rightarrow> world \<Rightarrow> (string + unit) \<times> world" where
  "symlink h target p w =
     (case (if files w p \<noteq> None then Some (''EEXIST: file already exists, symlink'')
            else symlink_error h target p (files w)) of
        Some err \<Rightarrow> (Inl err, emit (MakeSymlink target p) w)
      | None \<Rightarrow> (Inr (), (emit (MakeSymlink target p) w)\<lparr>files := (files w)(p \<mapsto> Symlink target)\<rparr>))"

text \<open>\<open>Bun.write(p, text)\<close> and \<open>Bun.write(p, Bun.file(source))\<close>\<close>

definition write_file :: "host \<Rightarrow> string \<Rightarrow> world \<Rightarrow> (string + unit) \<times> world" where
  "write_file h p w =
     (case write_error h p (files w) of
        Some err \<Rightarrow> (Inl err, emit (Write p) w)
      | None \<Rightarrow> (Inr (), (emit (Write p) w)\<lparr>files := (files w)(p \<mapsto> File)\<rparr>))"

definition copy_file :: "host \<Rightarrow> string \<Rightarrow> string \<Rightarrow> world \<Rightarrow> (string + unit) \<times> world" where
  "copy_file h source p w =
     (case write_error h p (files w) of
        Some err \<Rightarrow> (Inl err, emit (CopyFile source p) w)
      | None \<Rightarrow> (Inr (), (emit (CopyFile source p) w)\<lparr>files := (files w)(p \<mapsto> File)\<rparr>))"

subsection \<open>Processes\<close>

text \<open>\<open>s.trim()\<close>: white space and line terminators are removed at both ends.\<close>

definition is_space :: "char \<Rightarrow> bool" where
  "is_space c = (c \<in> {CHR 0x09, CHR 0x0A, CHR 0x0B, CHR 0x0C, CHR 0x0D, CHR 0x20, CHR 0xA0})"

definition trim :: "string \<Rightarrow> string" where
  "trim s = rev (dropWhile is_space (rev (dropWhile is_space s)))"

definition git :: "host \<Rightarrow> string list \<Rightarrow> string \<Rightarrow> world \<Rightarrow> (string + string) \<times> world" where
  "git h args cwd w =
     (case git_process h args cwd (files w) of
        (result, fs') \<Rightarrow>
          (let w' = (emit (Git args cwd) w)\<lparr>files := fs'\<rparr>
           in case result of
                SpawnFailed msg \<Rightarrow> (Inl msg, w')
              | Exited exitCode stdout stderr \<Rightarrow>
                  if exitCode \<noteq> 0 then
                    (Inl (if trim stderr \<noteq> [] then trim stderr
                          else ''git '' @ (case args of [] \<Rightarrow> ''undefined'' | a # _ \<Rightarrow> a)
                               @ '' failed''), w')
                  else (Inr (trim stdout), w')))"

definition branchExists :: "host \<Rightarrow> string \<Rightarrow> string \<Rightarrow> world \<Rightarrow> bool \<times> world" where
  "branchExists h cwd branch w =
     (case git h [''rev-parse'', ''--verify'', branch] cwd w of
        (result, w') \<Rightarrow> (\<not> isl result, w'))"

text \<open>
  \<open>openTerminal(cwd, command, name)\<close> of \<open>worktree/terminal.ts\<close> answers with success
  or with an error text and never throws.
\<close>

definition openTerminal ::
  "host \<Rightarrow> string \<Rightarrow> string \<Rightarrow> string \<Rightarrow> world \<Rightarrow> string option \<times> world" where
  "openTerminal h cwd command name w =
     (terminal_result h cwd command name (files w), emit (OpenTerminal cwd command name) w)"

text \<open>A natural number in decimal, as a template literal prints it.\<close>

fun show_nat :: "nat \<Rightarrow> string" where
  "show_nat n =
     (if n < 10 then [char_of (48 + n)] else show_nat (n div 10) @ [char_of (48 + n mod 10)])"

declare show_nat.simps [simp del]
section \<open>Hooks and configuration (worktree/shared/hooks.ts)\<close>

fun runHooks :: "host \<Rightarrow> string \<Rightarrow> string list \<Rightarrow> world \<Rightarrow> world" where
  "runHooks h cwd [] w = w"
| "runHooks h cwd (command # commands) w =
     (let w1 = log Info (''[worktree] Running hook: '' @ command) w;
          (result, fs') = bash_process h command cwd (files w1);
          w2 = (emit (Bash command cwd) w1)\<lparr>files := fs'\<rparr>;
          w3 = (case result of
                  Exited exitCode stdout stderr \<Rightarrow>
                    if exitCode \<noteq> 0 then
                      log Warn (''[worktree] Hook failed (exit '' @ show_nat exitCode @ ''): ''
                                @ command
                                @ (if stderr \<noteq> [] then [newline] @ stderr else [])) w2
                    else w2
                | SpawnFailed msg \<Rightarrow>
                    log Warn (''[worktree] Hook error: '' @ error_string msg) w2)
      in runHooks h cwd commands w3)"

text \<open>\<open>worktreeConfigSchema.parse({})\<close>: every list empty.\<close>

definition default_config :: worktreeConfig where
  "default_config =
     \<lparr>sync = \<lparr>sync_copyFiles = [], sync_symlinkDirs = [], sync_exclude = []\<rparr>,
      hooks = \<lparr>hooks_postCreate = [], hooks_preDelete = []\<rparr>\<rparr>"

text \<open>
  \<open>loadWorktreeConfig\<close>: every exception inside is caught, logged as a warning, and
  answered with the defaults.  \<open>Write\<close> of the missing file writes the commented default
  text of the source.  A file system call throws an \<open>Error\<close>, printed with the prefix
  \<open>Error: \<close>; the schema throws a \<open>ZodError\<close>, whose \<open>toString\<close> is its message alone:
  \<open>Rejected\<close> carries that text.
\<close>

definition loadWorktreeConfig :: "host \<Rightarrow> string \<Rightarrow> world \<Rightarrow> worktreeConfig \<times> world" where
  "loadWorktreeConfig h directory w =
     (let configPath = path_join [directory, ''.opencode'', ''worktree.jsonc''];
          failed = (\<lambda>err v. (default_config,
                      log Warn (''[worktree] Failed to load config: '' @ error_string err) v));
          (present, w1) = file_exists h configPath w
      in if \<not> present then
           (case mkdir h (path_join [directory, ''.opencode'']) w1 of
              (Inl err, w2) \<Rightarrow> failed err w2
            | (Inr u, w2) \<Rightarrow>
                (case write_file h configPath w2 of
                   (Inl err, w3) \<Rightarrow> failed err w3
                 | (Inr u', w3) \<Rightarrow>
                     (default_config,
                      log Info (''[worktree] Created default config: '' @ configPath) w3)))
         else
           (case file_text h configPath w1 of
              (Inl err, w2) \<Rightarrow> failed err w2
            | (Inr content, w2) \<Rightarrow>
                (case jsonc_parse h content of
                   Undefined \<Rightarrow>
                     (default_config, log Error ''[worktree] Invalid worktree.jsonc syntax'' w2)
                 | Rejected err \<Rightarrow>
                     (default_config, log Warn (''[worktree] Failed to load config: '' @ err) w2)
                 | Parsed config \<Rightarrow> (config, w2))))"

section \<open>File synchronisation (worktree/shared/sync.ts)\<close>

text \<open>\<open>isPathSafe\<close> with its warnings sent to the logger.\<close>

definition isPathSafe_logged :: "host \<Rightarrow> string \<Rightarrow> string \<Rightarrow> world \<Rightarrow> bool \<times> world" where
  "isPathSafe_logged h filePath baseDir w =
     (case isPathSafe (process_cwd h) filePath baseDir of
        (safe, warnings) \<Rightarrow> (safe, foldl (\<lambda>v msg. log Warn msg v) w warnings))"

text \<open>
  One file of \<open>copyFiles\<close>, past the safety check: the body of the \<open>try\<close> block
  and its \<open>catch\<close>.
\<close>

definition copyOneFile :: "host \<Rightarrow> string \<Rightarrow> string \<Rightarrow> string \<Rightarrow> world \<Rightarrow> world" where
  "copyOneFile h sourceDir targetDir file w =
     (let sourcePath = path_join [sourceDir, file];
          targetPath = path_join [targetDir, file];
          caught = (\<lambda>err v.
             if js_includes err ''ENOENT'' \<or> js_includes err ''no such file''
             then log Debug (''[worktree] Skipping missing: '' @ file) v
             else log Warn (''[worktree] Failed to copy '' @ file @ '': ''
                            @ error_string err) v);
          (present, w1) = file_exists h sourcePath w
      in if \<not> present then
           log Debug (''[worktree] Skipping missing file: '' @ file) w1
         else
           (case mkdir h (path_dirname targetPath) w1 of
              (Inl err, w2) \<Rightarrow> caught err w2
            | (Inr u, w2) \<Rightarrow>
                (case copy_file h sourcePath targetPath w2 of
                   (Inl err, w3) \<Rightarrow> caught err w3
                 | (Inr u', w3) \<Rightarrow> log Info (''[worktree] Copied: '' @ file) w3)))"

fun copyFiles :: "host \<Rightarrow> string \<Rightarrow> string \<Rightarrow> string list \<Rightarrow> world \<Rightarrow> world" where
  "copyFiles h sourceDir targetDir [] w = w"
| "copyFiles h sourceDir targetDir (file # rest) w =
     (let (safe, w1) = isPathSafe_logged h file sourceDir w
      in if \<not> safe then copyFiles h sourceDir targetDir rest w1
         else copyFiles h sourceDir targetDir rest (copyOneFile h sourceDir targetDir file w1))"

text \<open>
  One directory of \<open>symlinkDirs\<close>, past the safety check: the body of the \<open>try\<close>
  block and its \<open>catch\<close>.
\<close>

definition symlinkDir :: "host \<Rightarrow> string \<Rightarrow> string \<Rightarrow> string \<Rightarrow> world \<Rightarrow> world" where
  "symlinkDir h sourceDir targetDir dir w =
     (let sourcePath = path_join [sourceDir, dir];
          targetPath = path_join [targetDir, dir];
          caught = (\<lambda>err v. log Warn (''[worktree] Failed to symlink '' @ dir @ '': ''
                                       @ error_string err) v);
          (fileStat, w1) = stat h sourcePath w
      in if fileStat \<noteq> Some Dir then
           log Debug (''[worktree] Skipping missing directory: '' @ dir) w1
         else
           (case mkdir h (path_dirname targetPath) w1 of
              (Inl err, w2) \<Rightarrow> caught err w2
            | (Inr u, w2) \<Rightarrow>
                (case rm h targetPath w2 of
                   (Inl err, w3) \<Rightarrow> caught err w3
                 | (Inr u', w3) \<Rightarrow>
                     (case symlink h sourcePath targetPath w3 of
                        (Inl err, w4) \<Rightarrow> caught err w4
                      | (Inr u'', w4) \<Rightarrow> log Info (''[worktree] Symlinked: '' @ dir) w4))))"

fun symlinkDirs :: "host \<Rightarrow> string \<Rightarrow> string \<Rightarrow> string list \<Rightarrow> world \<Rightarrow> world" where
  "symlinkDirs h sourceDir targetDir [] w = w"
| "symlinkDirs h sourceDir targetDir (dir # rest) w =
     (let (safe, w1) = isPathSafe_logged h dir sourceDir w
      in if \<not> safe then symlinkDirs h sourceDir targetDir rest w1
         else symlinkDirs h sourceDir targetDir rest (symlinkDir h sourceDir targetDir dir w1))"

section \<open>Worktree sets (worktree/multi-repo/discovery.ts, sets.ts)\<close>

definition sanitizeBranchForDir :: "string \<Rightarrow> string" where
  "sanitizeBranchForDir branch = replaceAll CHR ''/'' ''-'' branch"

definition getFeaturePath :: "string \<Rightarrow> string \<Rightarrow> string" where
  "getFeaturePath workspaceRoot branch = path_join [workspaceRoot, sanitizeBranchForDir branch]"

record createSetOptions =
  cso_workspaceRoot :: string
  cso_branch :: string
  cso_baseBranch :: "string option"
  cso_repos :: "string list"
  cso_runHooksFlag :: "bool option"

record repoResult =
  rr_repo :: string
  rr_success :: bool
  rr_worktreePath :: "string option"
  rr_error :: "string option"

record setCreationResult =
  scr_featurePath :: string
  scr_results :: "repoResult list"
  scr_successCount :: nat
  scr_failureCount :: nat

text \<open>The result of the two early returns: every repository failed with one message.\<close>

definition all_repos_failed :: "string \<Rightarrow> string list \<Rightarrow> string \<Rightarrow> setCreationResult" where
  "all_repos_failed featurePath repos msg =
     \<lparr>scr_featurePath = featurePath,
      scr_results = map (\<lambda>repo. \<lparr>rr_repo = repo, rr_success = False, rr_worktreePath = None,
                                 rr_error = Some msg\<rparr>) repos,
      scr_successCount = 0,
      scr_failureCount = length repos\<rparr>"

text \<open>
  The check of the entries of the feature directory: whether one of them has a
  \<open>.git\<close> that \<open>Bun.file(...).exists()\<close> finds.
\<close>

fun contains_worktrees :: "host \<Rightarrow> string \<Rightarrow> string list \<Rightarrow> world \<Rightarrow> bool \<times> world" where
  "contains_worktrees h featurePath [] w = (False, w)"
| "contains_worktrees h featurePath (entry # entries) w =
     (let gitFile = path_join [featurePath, entry, ''.git''];
          (present, w1) = file_exists h gitFile w
      in if present then (True, w1) else contains_worktrees h featurePath entries w1)"

text \<open>
  One repository of the loop of \<open>createWorktreeSet\<close>.  None of the calls in the body
  throws (each catches its own exceptions), so the \<open>catch\<close> of the loop body has no
  branch here.
\<close>

definition create_repo ::
  "host \<Rightarrow> createSetOptions \<Rightarrow> string \<Rightarrow> string \<Rightarrow> world \<Rightarrow> repoResult \<times> world" where
  "create_repo h options featurePath repo w =
     (let branch = cso_branch options;
          w1 = log Info (''[worktree-set] Processing repository: '' @ repo) w;
          mainRepoPath = path_join [cso_workspaceRoot options, ''main'', repo];
          worktreePath = path_join [featurePath, repo];
          (exists, w2) = branchExists h mainRepoPath branch w1;
          (gitResult, w3) =
            (if exists then
               git h [''worktree'', ''add'', worktreePath, branch] mainRepoPath
                 (log Debug (''[worktree-set] Checking out existing branch: '' @ branch) w2)
             else
               (let base = (case cso_baseBranch options of None \<Rightarrow> ''HEAD'' | Some b \<Rightarrow> b)
                in git h [''worktree'', ''add'', ''-b'', branch, worktreePath, base] mainRepoPath
                     (log Debug (''[worktree-set] Creating new branch from '' @ base @ '': ''
                                 @ branch) w2)))
      in case gitResult of
           Inl err \<Rightarrow>
             (\<lparr>rr_repo = repo, rr_success = False, rr_worktreePath = None, rr_error = Some err\<rparr>,
              log Warn (''[worktree-set] Failed to create worktree for '' @ repo @ '': '' @ err) w3)
         | Inr out \<Rightarrow>
             (let w4 = log Info (''[worktree-set] Created worktree for '' @ repo @ '' at ''
                                 @ worktreePath) w3;
                  (worktreeConfig, w5) = loadWorktreeConfig h mainRepoPath w4;
                  files_to_copy = sync_copyFiles (sync worktreeConfig);
                  w6 = (if length files_to_copy > 0 then
                          copyFiles h mainRepoPath worktreePath files_to_copy
                            (log Debug (''[worktree-set] Copying '' @ show_nat (length files_to_copy)
                                        @ '' files for '' @ repo) w5)
                        else w5);
                  dirs_to_link = sync_symlinkDirs (sync worktreeConfig);
                  w7 = (if length dirs_to_link > 0 then
                          symlinkDirs h mainRepoPath worktreePath dirs_to_link
                            (log Debug (''[worktree-set] Symlinking '' @ show_nat (length dirs_to_link)
                                        @ '' directories for '' @ repo) w6)
                        else w6);
                  commands = hooks_postCreate (hooks worktreeConfig);
                  runHooksFlag = (case cso_runHooksFlag options of None \<Rightarrow> True | Some b \<Rightarrow> b);
                  w8 = (if runHooksFlag \<and> length commands > 0 then
                          runHooks h worktreePath commands
                            (log Debug (''[worktree-set] Running '' @ show_nat (length commands)
                                        @ '' hooks for '' @ repo) w7)
                        else w7)
              in (\<lparr>rr_repo = repo, rr_success = True, rr_worktreePath = Some worktreePath,
                   rr_error = None\<rparr>, w8)))"

fun create_repos ::
  "host \<Rightarrow> createSetOptions \<Rightarrow> string \<Rightarrow> string list \<Rightarrow> repoResult list \<times> nat \<times> nat \<Rightarrow> world
   \<Rightarrow> (repoResult list \<times> nat \<times> nat) \<times> world" where
  "create_repos h options featurePath [] acc w = (acc, w)"
| "create_repos h options featurePath (repo # repos) (results, successCount, failureCount) w =
     (case create_repo h options featurePath repo w of
        (result, w') \<Rightarrow>
          if rr_success result then
            create_repos h options featurePath repos
              (results @ [result], successCount + 1, failureCount) w'
          else
            create_repos h options featurePath repos
              (results @ [result], successCount, failureCount + 1) w')"

text \<open>
  The lines of the summary, one per repository.  The check mark and the cross of the
  source's texts (U+2705, U+274C) are written \<open>(ok)\<close> and \<open>(failed)\<close>.
\<close>

definition result_line :: "repoResult \<Rightarrow> event" where
  "result_line result =
     (if rr_success result then
        Log Info (''  (ok) '' @ rr_repo result @ '': ''
                  @ (case rr_worktreePath result of None \<Rightarrow> ''undefined'' | Some p \<Rightarrow> p))
      else
        Log Error (''  (failed) '' @ rr_repo result @ '': ''
                   @ (case rr_error result of None \<Rightarrow> ''undefined'' | Some e \<Rightarrow> e)))"

definition summary_line :: "nat \<Rightarrow> nat \<Rightarrow> event" where
  "summary_line successCount failureCount =
     Log Info (''[worktree-set] Summary: '' @ show_nat successCount @ '' succeeded, ''
               @ show_nat failureCount @ '' failed'')"

text \<open>
  \<open>createWorktreeSet\<close>.  The \<open>mkdir\<close> of the feature directory is outside every
  \<open>try\<close>: where it throws, the call is rejected with that error (\<open>Inl\<close>).
\<close>

definition createWorktreeSet ::
  "host \<Rightarrow> createSetOptions \<Rightarrow> world \<Rightarrow> (string + setCreationResult) \<times> world" where
  "createWorktreeSet h options w =
     (let workspaceRoot = cso_workspaceRoot options;
          branch = cso_branch options;
          repos = cso_repos options
      in case safeParse branchNameSchema branch of
           Inl branch_issues \<Rightarrow>
             (let errorMsg = (case branch_issues of [] \<Rightarrow> ''Invalid branch name'' | m # ms \<Rightarrow> m)
              in (Inr (all_repos_failed [] repos (''Invalid branch name: '' @ errorMsg)),
                  log Error (''[worktree-set] '' @ errorMsg) w))
         | Inr valid \<Rightarrow>
             (let sanitizedBranch = sanitizeBranchForDir branch;
                  featurePath = getFeaturePath workspaceRoot branch;
                  w1 = log Info (''[worktree-set] Creating feature directory: '' @ featurePath) w;
                  (listing, w2) = readdir h featurePath w1;
                  entries = (case listing of Inl err \<Rightarrow> [] | Inr names \<Rightarrow> names);
                  (found, w3) = contains_worktrees h featurePath entries w2
              in if found then
                   (Inr (all_repos_failed featurePath repos
                           ''Feature directory already contains worktrees''),
                    log Error (''[worktree-set] Feature directory already contains worktrees: ''
                               @ featurePath) w3)
                 else
                   (case mkdir h featurePath w3 of
                      (Inl err, w4) \<Rightarrow> (Inl err, w4)
                    | (Inr u, w4) \<Rightarrow>
                        (case create_repos h options featurePath repos ([], 0, 0) w4 of
                           ((results, successCount, failureCount), w5) \<Rightarrow>
                             (let w6 = emit (summary_line successCount failureCount) w5;
                                  w7 = foldl (\<lambda>v result. emit (result_line result) v) w6 results;
                                  w9 =
                                    (if successCount > 0 then
                                       (case openTerminal h featurePath ''opencode'' sanitizedBranch
                                               (log Info (''[worktree-set] Launching opencode in ''
                                                          @ featurePath) w7) of
                                          (None, w8) \<Rightarrow> w8
                                        | (Some err, w8) \<Rightarrow>
                                            log Warn (''[worktree-set] Failed to open terminal: ''
                                                      @ err) w8)
                                     else
                                       (case rm h featurePath
                                               (log Error (''[worktree-set] All repositories failed, ''
                                                           @ ''removing empty directory: ''
                                                           @ featurePath) w7) of
                                          (Inr u', w8) \<Rightarrow> w8
                                        | (Inl err, w8) \<Rightarrow>
                                            log Warn (''[worktree-set] Failed to remove empty ''
                                                      @ ''directory: '' @ error_string err) w8))
                              in (Inr \<lparr>scr_featurePath = featurePath, scr_results = results,
                                        scr_successCount = successCount,
                                        scr_failureCount = failureCount\<rparr>, w9))))))"

subsection \<open>Removal\<close>







text \<open>The events a call has added to the trace.\<close>

definition new_events :: "world \<Rightarrow> world \<Rightarrow> event list" where
  "new_events w w' = drop (length (events w)) (events w')"

definition emits :: "(event \<Rightarrow> bool) \<Rightarrow> world \<Rightarrow> world \<Rightarrow> bool" where
  "emits S w w' = (\<exists>es. events w' = events w @ es \<and> list_all S es)"

text \<open>
  The events of the work on one file, one directory, one hook, one repository or one
  entry: all but \<open>lstat\<close>, \<open>readdir\<close> and the opening of a terminal.
\<close>

fun inner_event :: "event \<Rightarrow> bool" where
  "inner_event (Lstat p) = False"
| "inner_event (Readdir p) = False"
| "inner_event (OpenTerminal cwd command name) = False"
| "inner_event e = True"


fun is_warning :: "event \<Rightarrow> bool" where
  "is_warning (Log l msg) = (l = Warn)"
| "is_warning e = False"

text \<open>
  The feature directory already contains worktrees: one of the names \<open>readdir\<close> lists
  there (none when \<open>readdir\<close> throws) has a \<open>.git\<close> that exists.
\<close>

definition already_has_worktrees :: "host \<Rightarrow> string \<Rightarrow> filesystem \<Rightarrow> bool" where
  "already_has_worktrees h featurePath fs =
     list_ex (\<lambda>entry. exists_result h (path_join [featurePath, entry, ''.git'']) fs)
       (case readdir_result h featurePath fs of Inl err \<Rightarrow> [] | Inr names \<Rightarrow> names)"

section \<open>Example hosts, worlds and calls\<close>

text \<open>
  A host with the working directory \<open>/ws\<close>, where no directory can be listed and no
  file read, no other file system call throws, every \<open>git\<close> command fails and a
  terminal opens.
\<close>

definition quiet_host :: host where
  "quiet_host =
     \<lparr>process_cwd = ''/ws'',
      readdir_result = (\<lambda>p fs. Inl ''ENOENT: no such file or directory, scandir''),
      stat_result = (\<lambda>p fs. fs (path_resolve ''/ws'' [p])),
      exists_result = (\<lambda>p fs. fs p = Some File),
      text_result = (\<lambda>p fs. Inl ''ENOENT: no such file or directory, open''),
      mkdir_error = (\<lambda>p fs. None),
      rm_error = (\<lambda>p fs. None),
      symlink_error = (\<lambda>target p fs. None),
      write_error = (\<lambda>p fs. None),
      git_process = (\<lambda>args cwd fs. (Exited 128 [] ''fatal: not a git repository'', fs)),
      bash_process = (\<lambda>command cwd fs. (Exited 0 [] [], fs)),
      terminal_result = (\<lambda>cwd command name fs. None),
      jsonc_parse = (\<lambda>text. Undefined)\<rparr>"

text \<open>The same host, where \<open>rm\<close> throws.\<close>

definition failing_rm_host :: host where
  "failing_rm_host = quiet_host\<lparr>rm_error := (\<lambda>p fs. Some ''EACCES: permission denied, rm'')\<rparr>"


text \<open>The same host, where every \<open>git\<close> command succeeds and prints nothing.\<close>

definition working_git_host :: host where
  "working_git_host = quiet_host\<lparr>git_process := (\<lambda>args cwd fs. (Exited 0 [] [], fs))\<rparr>"

definition empty_world :: world where
  "empty_world = \<lparr>files = (\<lambda>p. None), events = []\<rparr>"

definition example_set_options :: createSetOptions where
  "example_set_options =
     \<lparr>cso_workspaceRoot = ''/ws'', cso_branch = ''feature/x'', cso_baseBranch = None,
      cso_repos = [''api''], cso_runHooksFlag = None\<rparr>"

definition rejected_set_options :: createSetOptions where
  "rejected_set_options =
     \<lparr>cso_workspaceRoot = ''/ws'', cso_branch = ''bad branch'', cso_baseBranch = None,
      cso_repos = [''api'', ''web''], cso_runHooksFlag = None\<rparr>"

text \<open>
  A feature directory \<open>/ws/feature-x\<close> with the worktrees \<open>api\<close> and \<open>web\<close>.  On the
  host, \<open>git rev-parse\<close> answers with the main repository of \<open>api\<close>, the removal of the
  worktree \<open>api\<close> fails and that of \<open>web\<close> succeeds.
\<close>

definition feature_world :: world where
  "feature_world =
     \<lparr>files = (\<lambda>p. if p = ''/ws/feature-x'' then Some Dir
                    else if p = ''/ws/feature-x/api/.git'' \<or> p = ''/ws/feature-x/web/.git''
                    then Some File else None),
      events = []\<rparr>"

definition feature_host :: host where
  "feature_host =
     quiet_host
       \<lparr>readdir_result := (\<lambda>p fs. Inr [''api'', ''web'']),
        git_process := (\<lambda>args cwd fs.
           if args = [''worktree'', ''remove'', ''--force'', ''/ws/feature-x/api'']
           then (Exited 1 [] ''fatal: worktree is locked'', fs)
           else (Exited 0 ''/ws/main/api/.git'' [], fs))\<rparr>"




section \<open>Results on the escaping functions\<close>

lemma replaceAll_concat_map:
  "replaceAll c r (concat (map f s)) = concat (map (\<lambda>x. replaceAll c r (f x)) s)"
  by (induction s) (simp_all add: replaceAll_def)

lemma replaceAll_as_concat_map: "replaceAll c r s = concat (map (\<lambda>x. replaceAll c r [x]) s)"
  by (simp add: replaceAll_def)

lemma escapeBash_rule: "escapeBash s = concat (map bash_rule s)"
proof -
  have "escapeBash s = concat (map (\<lambda>x. escapeBash [x]) s)"
    unfolding escapeBash_def
    by (subst replaceAll_as_concat_map [of bslash]) (simp only: replaceAll_concat_map)
  moreover have "escapeBash [x] = bash_rule x" for x
    by (simp add: escapeBash_def bash_rule_def replaceAll_def)
  ultimately show ?thesis by simp
qed

lemma escapeAppleScript_rule: "escapeAppleScript s = concat (map applescript_rule s)"
proof -
  have "escapeAppleScript s = concat (map (\<lambda>x. escapeAppleScript [x]) s)"
    unfolding escapeAppleScript_def
    by (subst replaceAll_as_concat_map [of bslash]) (simp only: replaceAll_concat_map)
  moreover have "escapeAppleScript [x] = applescript_rule x" for x
    by (simp add: escapeAppleScript_def applescript_rule_def replaceAll_def)
  ultimately show ?thesis by simp
qed

lemma escapeBatch_rule: "escapeBatch s = concat (map batch_rule s)"
proof -
  have "escapeBatch s = concat (map (\<lambda>x. escapeBatch [x]) s)"
    unfolding escapeBatch_def
    by (subst replaceAll_as_concat_map [of "CHR ''%''"]) (simp only: replaceAll_concat_map)
  moreover have "escapeBatch [x] = batch_rule x" for x
    by (simp add: escapeBatch_def batch_rule_def replaceAll_def)
  ultimately show ?thesis by simp
qed

text \<open>
  Claim C7.  Each escaping function applies exactly its own rule to every character of
  its input: \<open>escapeBash\<close> puts a backslash before backslash, double quote, dollar sign,
  backtick and exclamation mark and turns a newline into a space;
  \<open>escapeAppleScript\<close> puts a backslash before backslash, double quote and dollar sign
  and changes nothing else; \<open>escapeBatch\<close> doubles percent and caret and puts a caret
  before ampersand, less-than, greater-than and bar.  The three functions differ: on the
  input \<open>!%\<close> their outputs are pairwise different.
\<close>

theorem escaping_functions_follow_their_rules:
  "escapeBash s = concat (map bash_rule s)
   \<and> escapeAppleScript s = concat (map applescript_rule s)
   \<and> escapeBatch s = concat (map batch_rule s)
   \<and> escapeBash ''!%'' \<noteq> escapeAppleScript ''!%''
   \<and> escapeBash ''!%'' \<noteq> escapeBatch ''!%''
   \<and> escapeAppleScript ''!%'' \<noteq> escapeBatch ''!%''"
proof -
  have "escapeBash ''!%'' = [bslash] @ ''!%''"
    by (simp add: escapeBash_rule bash_rule_def)
  moreover have "escapeAppleScript ''!%'' = ''!%''"
    by (simp add: escapeAppleScript_rule applescript_rule_def)
  moreover have "escapeBatch ''!%'' = ''!%%''"
    by (simp add: escapeBatch_rule batch_rule_def)
  ultimately show ?thesis
    by (simp add: escapeBash_rule escapeAppleScript_rule escapeBatch_rule)
qed

section \<open>Results on the branch validator\<close>

lemma startsWith_iff: "startsWith s p \<longleftrightarrow> (\<exists>t. s = p @ t)"
  by (induction s p rule: startsWith.induct) auto

lemma endsWith_iff: "endsWith s p \<longleftrightarrow> (\<exists>t. s = t @ p)"
proof -
  have "(\<exists>t. rev s = rev p @ t) \<longleftrightarrow> (\<exists>t. s = t @ p)"
    by (metis rev_append rev_rev_ident)
  then show ?thesis by (simp add: endsWith_def startsWith_iff)
qed

lemma js_includes_iff: "js_includes s p \<longleftrightarrow> (\<exists>a b. s = a @ p @ b)"
proof (induction s)
  case Nil
  then show ?case by auto
next
  case (Cons c cs)
  show ?case
  proof
    assume "js_includes (c # cs) p"
    then consider "startsWith (c # cs) p" | "js_includes cs p" by auto
    then show "\<exists>a b. c # cs = a @ p @ b"
    proof cases
      case 1
      then obtain t where "c # cs = p @ t" by (auto simp: startsWith_iff)
      then have "c # cs = [] @ p @ t" by simp
      then show ?thesis by blast
    next
      case 2
      then obtain a b where "cs = a @ p @ b" using Cons.IH by auto
      then have "c # cs = (c # a) @ p @ b" by simp
      then show ?thesis by blast
    qed
  next
    assume "\<exists>a b. c # cs = a @ p @ b"
    then obtain a b where ab: "c # cs = a @ p @ b" by auto
    show "js_includes (c # cs) p"
    proof (cases a)
      case Nil
      then have "startsWith (c # cs) p"
        using ab by (metis append_Nil startsWith_iff)
      then show ?thesis by simp
    next
      case (Cons x xs)
      then have "cs = xs @ p @ b" using ab by simp
      then show ?thesis using Cons.IH by auto
    qed
  qed
qed

lemma issues_empty_iff:
  "issues schema name = [] \<longleftrightarrow> (\<forall>(ok, msg) \<in> set schema. ok name)"
proof -
  have "issues schema name = [] \<longleftrightarrow> filter (\<lambda>(ok, msg). \<not> ok name) schema = []"
    by (simp add: issues_def)
  then show ?thesis
    by (auto simp: filter_empty_conv)
qed

lemma safeParse_rejects_iff:
  "isl (safeParse schema name) \<longleftrightarrow> (\<exists>(ok, msg) \<in> set schema. \<not> ok name)"
  by (auto simp: safeParse_def issues_empty_iff)

lemma branchNameSchema_check_fails_iff:
  "(\<exists>(ok, msg) \<in> set branchNameSchema. \<not> ok name) \<longleftrightarrow>
     (length name < 1 \<or> 255 < length name \<or> startsWith name ''-''
      \<or> startsWith name ''/'' \<or> endsWith name ''/''
      \<or> js_includes name ''//'' \<or> js_includes name (''@'' @ ''{'') \<or> js_includes name ''..''
      \<or> test_class (\<lambda>c. (of_char c :: nat) \<le> 0x1f \<or> c = CHR 0x7F
                    \<or> c \<in> set ('' ~^:?*[]'' @ [bslash])) name
      \<or> \<not> isValidBranchName name
      \<or> startsWith name ''.'' \<or> endsWith name ''.'' \<or> endsWith name ''.lock'')"
  unfolding branchNameSchema_def
  by (simp only: list.set bex_simps insert_iff empty_iff case_prod_conv not_not not_le) blast

lemma branchNameSchema_rejects_iff:
  "isl (safeParse branchNameSchema name) \<longleftrightarrow>
     (length name < 1 \<or> 255 < length name \<or> startsWith name ''-''
      \<or> startsWith name ''/'' \<or> endsWith name ''/''
      \<or> js_includes name ''//'' \<or> js_includes name (''@'' @ ''{'') \<or> js_includes name ''..''
      \<or> test_class (\<lambda>c. (of_char c :: nat) \<le> 0x1f \<or> c = CHR 0x7F
                    \<or> c \<in> set ('' ~^:?*[]'' @ [bslash])) name
      \<or> \<not> isValidBranchName name
      \<or> startsWith name ''.'' \<or> endsWith name ''.'' \<or> endsWith name ''.lock'')"
  by (simp only: safeParse_rejects_iff branchNameSchema_check_fails_iff)

lemma list_ex_member: "c \<in> set xs \<Longrightarrow> P c \<Longrightarrow> list_ex P xs"
  by (auto simp: list_ex_iff)

lemma in_set_append4:
  "c \<in> set (xs @ ys @ zs @ ws) \<Longrightarrow> c \<in> set zs \<or> c \<in> set (xs @ ys @ ws)"
  by auto

lemma in_set_append_left: "c \<in> set xs \<Longrightarrow> c \<in> set (xs @ ys)"
  by simp

lemma blocked_character_rejected:
  assumes "c \<in> set name"
    and "c \<in> set (''~^:?*[]'' @ [bslash] @ '' '' @ '';&|'' @ [backtick] @ ''$()'')
         \<or> (of_char c :: nat) \<le> 0x1f \<or> (of_char c :: nat) = 0x7f"
  shows "test_class (\<lambda>c. (of_char c :: nat) \<le> 0x1f \<or> c = CHR 0x7F
                    \<or> c \<in> set ('' ~^:?*[]'' @ [bslash])) name
         \<or> \<not> isValidBranchName name"
proof -
  consider "c \<in> set '' ''" | "(of_char c :: nat) \<le> 0x1f \<or> (of_char c :: nat) = 0x7f"
    | "c \<in> set (''~^:?*[]'' @ [bslash] @ '';&|'' @ [backtick] @ ''$()'')"
    using assms(2) in_set_append4 [of c "''~^:?*[]''" "[bslash]" "'' ''"] by blast
  then show ?thesis
  proof cases
    case 1
    then have "c \<in> set ('' ~^:?*[]'' @ [bslash])"
      by simp
    then have "test_class (\<lambda>c. (of_char c :: nat) \<le> 0x1f \<or> c = CHR 0x7F
                    \<or> c \<in> set ('' ~^:?*[]'' @ [bslash])) name"
      unfolding test_class_def using assms(1) by (intro list_ex_member [of c]) simp_all
    then show ?thesis ..
  next
    case 2
    then have "list_ex (\<lambda>c. (of_char c :: nat) \<le> 0x1f \<or> (of_char c :: nat) = 0x7f) name"
      using assms(1) by (intro list_ex_member [of c])
    then show ?thesis by (simp add: isValidBranchName_def)
  next
    case 3
    then have "test_class (\<lambda>c. c \<in> set (''~^:?*[]'' @ [bslash] @ '';&|'' @ [backtick] @ ''$()'')) name"
      unfolding test_class_def using assms(1) by (intro list_ex_member [of c])
    then show ?thesis by (simp add: isValidBranchName_def)
  qed
qed

text \<open>
  Claim C2.  \<open>branchNameSchema.safeParse\<close> returns an error for every name that holds one
  of the characters \<open>~ ^ : ? * [ ] \<close> backslash, a space, a control character
  (code 0x00 to 0x1f, or 0x7f) or one of \<open>; & | ` $ ( )\<close>; and also for the empty name,
  for a name of more than 255 characters, for a leading \<open>-\<close>, a leading or trailing
  \<open>/\<close>, for \<open>//\<close>, an at sign followed by an opening brace, or \<open>..\<close> anywhere, for a leading or trailing \<open>.\<close> and
  for a trailing \<open>.lock\<close>.
\<close>

theorem branchNameSchema_rejects:
  assumes "(\<exists>c \<in> set name.
              c \<in> set (''~^:?*[]'' @ [bslash] @ '' '' @ '';&|'' @ [backtick] @ ''$()'')
              \<or> (of_char c :: nat) \<le> 0x1f \<or> (of_char c :: nat) = 0x7f)
           \<or> name = [] \<or> 255 < length name
           \<or> (\<exists>t. name = ''-'' @ t)
           \<or> (\<exists>t. name = ''/'' @ t) \<or> (\<exists>t. name = t @ ''/'')
           \<or> (\<exists>a b. name = a @ ''//'' @ b)
           \<or> (\<exists>a b. name = a @ (''@'' @ ''{'') @ b)
           \<or> (\<exists>a b. name = a @ ''..'' @ b)
           \<or> (\<exists>t. name = ''.'' @ t) \<or> (\<exists>t. name = t @ ''.'')
           \<or> (\<exists>t. name = t @ ''.lock'')"
  shows "\<exists>errs. safeParse branchNameSchema name = Inl errs \<and> errs \<noteq> []"
proof -
  have empty: "name = [] \<Longrightarrow> length name < 1"
    by simp
  have "isl (safeParse branchNameSchema name)"
    unfolding branchNameSchema_rejects_iff startsWith_iff endsWith_iff js_includes_iff
    using assms blocked_character_rejected [of _ name] empty
    by blast
  then show ?thesis
    by (auto simp: safeParse_def split: if_splits)
qed

theorem branchNameSchema_rejects_witness:
  "CHR '' '' \<in> set ''fix bug''
   \<and> safeParse branchNameSchema ''fix bug'' = Inl [''Branch name contains invalid characters'']"
proof -
  have h: "(\<exists>c \<in> set ''fix bug''.
              c \<in> set (''~^:?*[]'' @ [bslash] @ '' '' @ '';&|'' @ [backtick] @ ''$()'')
              \<or> (of_char c :: nat) \<le> 0x1f \<or> (of_char c :: nat) = 0x7f)
           \<or> ''fix bug'' = [] \<or> 255 < length ''fix bug''
           \<or> (\<exists>t. ''fix bug'' = ''-'' @ t)
           \<or> (\<exists>t. ''fix bug'' = ''/'' @ t) \<or> (\<exists>t. ''fix bug'' = t @ ''/'')
           \<or> (\<exists>a b. ''fix bug'' = a @ ''//'' @ b)
           \<or> (\<exists>a b. ''fix bug'' = a @ (''@'' @ ''{'') @ b)
           \<or> (\<exists>a b. ''fix bug'' = a @ ''..'' @ b)
           \<or> (\<exists>t. ''fix bug'' = ''.'' @ t) \<or> (\<exists>t. ''fix bug'' = t @ ''.'')
           \<or> (\<exists>t. ''fix bug'' = t @ ''.lock'')"
    by (intro disjI1) simp
  have "issues branchNameSchema ''fix bug'' = [''Branch name contains invalid characters'']"
    by (simp add: issues_def branchNameSchema_def endsWith_def test_class_def
        isValidBranchName_def)
  then have "safeParse branchNameSchema ''fix bug'' = Inl [''Branch name contains invalid characters'']"
    using branchNameSchema_rejects [OF h] by (simp add: safeParse_def)
  then show ?thesis by simp
qed

section \<open>Results on path safety\<close>
















section \<open>Results on the workspace root search\<close>

lemma findWorkspaceRoot_loop_stop:
  "currentDir = ''/'' \<or> 10 \<le> levelsUp \<Longrightarrow>
   findWorkspaceRoot_loop lstat_at startDir currentDir levelsUp
     = Inl (workspace_root_not_found startDir)"
  by (subst findWorkspaceRoot_loop.simps) auto

lemma findWorkspaceRoot_loop_found:
  "currentDir \<noteq> ''/'' \<Longrightarrow> levelsUp < 10 \<Longrightarrow> has_main lstat_at currentDir \<Longrightarrow>
   findWorkspaceRoot_loop lstat_at startDir currentDir levelsUp = Inr currentDir"
  by (subst findWorkspaceRoot_loop.simps) (simp add: has_main_def)

lemma findWorkspaceRoot_loop_up:
  "currentDir \<noteq> ''/'' \<Longrightarrow> levelsUp < 10 \<Longrightarrow> \<not> has_main lstat_at currentDir \<Longrightarrow>
   findWorkspaceRoot_loop lstat_at startDir currentDir levelsUp
     = findWorkspaceRoot_loop lstat_at startDir (path_dirname currentDir) (levelsUp + 1)"
  by (subst findWorkspaceRoot_loop.simps)
     (simp add: has_main_def split: option.splits fnode.splits)

lemma findWorkspaceRoot_loop_inspected:
  "n = 10 - levelsUp \<Longrightarrow>
   findWorkspaceRoot_loop lstat_at startDir currentDir levelsUp =
     (case find (has_main lstat_at) (inspected n currentDir) of
        Some dir \<Rightarrow> Inr dir
      | None \<Rightarrow> Inl (workspace_root_not_found startDir))"
proof (induction n arbitrary: currentDir levelsUp)
  case 0
  then have "10 \<le> levelsUp" by simp
  then show ?case by (simp add: findWorkspaceRoot_loop_stop)
next
  case (Suc n)
  then have lt: "levelsUp < 10" and n: "n = 10 - (levelsUp + 1)" by simp_all
  show ?case
  proof (cases "currentDir = ''/''")
    case True
    then show ?thesis by (simp add: findWorkspaceRoot_loop_stop)
  next
    case False
    show ?thesis
    proof (cases "has_main lstat_at currentDir")
      case True
      then show ?thesis using False lt by (simp add: findWorkspaceRoot_loop_found)
    next
      case nomain: False
      then show ?thesis
        using False lt Suc.IH [OF n] by (simp add: findWorkspaceRoot_loop_up)
    qed
  qed
qed

lemma length_inspected: "length (inspected n dir) \<le> n"
  by (induction n dir rule: inspected.induct) auto

lemma inspected_nth:
  "i < length (inspected n dir) \<Longrightarrow>
   inspected n dir ! i = (path_dirname ^^ i) dir \<and> inspected n dir ! i \<noteq> ''/''"
proof (induction n dir arbitrary: i rule: inspected.induct)
  case (1 dir)
  then show ?case by simp
next
  case (2 n dir)
  show ?case
  proof (cases i)
    case 0
    then show ?thesis using "2.prems" by (auto split: if_splits)
  next
    case (Suc j)
    then have "dir \<noteq> ''/''" and "j < length (inspected n (path_dirname dir))"
      using "2.prems" by (auto split: if_splits)
    then have "inspected n (path_dirname dir) ! j = (path_dirname ^^ j) (path_dirname dir)"
      and "(path_dirname ^^ j) (path_dirname dir) \<noteq> ''/''"
      using "2.IH" [of j] by auto
    then show ?thesis
      using Suc \<open>dir \<noteq> ''/''\<close> by (simp add: funpow_swap1)
  qed
qed

text \<open>
  Claim C10.  \<open>findWorkspaceRoot\<close> is a total function: the search always ends, with a
  result or an error value.  For a non-empty start path it looks at the resolved start
  directory and its ancestors by \<open>path.dirname\<close>, nearest first, at most ten of them and
  never the root \<open>/\<close>; it returns the first of these that holds a directory \<open>main\<close>,
  and the error message when none does.
\<close>

theorem findWorkspaceRoot_nearest_within_ten:
  "(startDir \<noteq> [] \<longrightarrow>
      findWorkspaceRoot lstat_at cwd startDir =
        (case find (has_main lstat_at) (inspected 10 (path_resolve cwd [startDir])) of
           Some dir \<Rightarrow> Inr dir
         | None \<Rightarrow> Inl (workspace_root_not_found startDir)))
   \<and> length (inspected 10 (path_resolve cwd [startDir])) \<le> 10
   \<and> (\<forall>i < length (inspected 10 (path_resolve cwd [startDir])).
         inspected 10 (path_resolve cwd [startDir]) ! i
           = (path_dirname ^^ i) (path_resolve cwd [startDir])
         \<and> inspected 10 (path_resolve cwd [startDir]) ! i \<noteq> ''/'')"
proof (intro conjI impI allI)
  assume "startDir \<noteq> []"
  then show "findWorkspaceRoot lstat_at cwd startDir =
        (case find (has_main lstat_at) (inspected 10 (path_resolve cwd [startDir])) of
           Some dir \<Rightarrow> Inr dir
         | None \<Rightarrow> Inl (workspace_root_not_found startDir))"
    using findWorkspaceRoot_loop_inspected [of 10 0 lstat_at startDir "path_resolve cwd [startDir]"]
    by (simp add: findWorkspaceRoot_def)
next
  show "length (inspected 10 (path_resolve cwd [startDir])) \<le> 10"
    by (rule length_inspected)
next
  fix i
  assume "i < length (inspected 10 (path_resolve cwd [startDir]))"
  then show "inspected 10 (path_resolve cwd [startDir]) ! i
           = (path_dirname ^^ i) (path_resolve cwd [startDir])"
    and "inspected 10 (path_resolve cwd [startDir]) ! i \<noteq> ''/''"
    using inspected_nth [of i 10 "path_resolve cwd [startDir]"] by blast+
qed

lemma example_inspected:
  "inspected 10 (path_resolve ''/home/dev'' [''/ws/feature-x/api/src''])
     = [''/ws/feature-x/api/src'', ''/ws/feature-x/api'', ''/ws/feature-x'', ''/ws'']"
  by (simp add: path_resolve_def normalizeString_def normalize_step_def path_isAbsolute_def
      path_dirname_def eval_nat_numeral)

theorem findWorkspaceRoot_nearest_within_ten_witness:
  "''/ws/feature-x/api/src'' \<noteq> []
   \<and> findWorkspaceRoot example_lstat ''/home/dev'' ''/ws/feature-x/api/src'' = Inr ''/ws''
   \<and> length (inspected 10 (path_resolve ''/home/dev'' [''/ws/feature-x/api/src''])) = 4"
proof -
  have "find (has_main example_lstat)
          [''/ws/feature-x/api/src'', ''/ws/feature-x/api'', ''/ws/feature-x'', ''/ws'']
        = Some ''/ws''"
    by (simp add: has_main_def example_lstat_def path_join_def path_normalize_def
        normalizeString_def normalize_step_def path_isAbsolute_def)
  then show ?thesis
    using findWorkspaceRoot_nearest_within_ten
      [of "''/ws/feature-x/api/src''" example_lstat "''/home/dev''"]
    by (simp add: example_inspected)
qed

section \<open>Results on the session state store\<close>

lemma min_one_iff: "Suc 0 \<le> length v \<longleftrightarrow> v \<noteq> []"
  by (cases v) simp_all

lemma sessionSchema_parse_valid:
  "s_id s \<noteq> [] \<Longrightarrow> s_branch s \<noteq> [] \<Longrightarrow> s_path s \<noteq> [] \<Longrightarrow> s_createdAt s \<noteq> [] \<Longrightarrow>
   sessionSchema_parse s = Inr s"
  by (simp add: sessionSchema_parse_def empty_fields_def min_one_iff)

lemma pendingSpawnSchema_parse_valid:
  "ps_branch s \<noteq> [] \<Longrightarrow> ps_path s \<noteq> [] \<Longrightarrow> ps_sessionId s \<noteq> [] \<Longrightarrow>
   pendingSpawnSchema_parse s = Inr s"
  by (simp add: pendingSpawnSchema_parse_def empty_fields_def min_one_iff)

lemma pendingDeleteSchema_parse_valid:
  "pd_branch d \<noteq> [] \<Longrightarrow> pd_path d \<noteq> [] \<Longrightarrow> pendingDeleteSchema_parse d = Inr d"
  by (simp add: pendingDeleteSchema_parse_def empty_fields_def min_one_iff)

lemma pendingSpawnSchema_parse_cases:
  "pendingSpawnSchema_parse s = Inr s \<or> (\<exists>e. pendingSpawnSchema_parse s = Inl e)"
  by (simp add: pendingSpawnSchema_parse_def split: list.splits)

lemma pendingDeleteSchema_parse_cases:
  "pendingDeleteSchema_parse d = Inr d \<or> (\<exists>e. pendingDeleteSchema_parse d = Inl e)"
  by (simp add: pendingDeleteSchema_parse_def split: list.splits)

lemma addSession_valid:
  "s_id s \<noteq> [] \<Longrightarrow> s_branch s \<noteq> [] \<Longrightarrow> s_path s \<noteq> [] \<Longrightarrow> s_createdAt s \<noteq> [] \<Longrightarrow>
   addSession db s = Inr (db\<lparr>sessions := insert_or_replace s_id s (sessions db)\<rparr>)"
  by (cases s) (simp add: addSession_def sessionSchema_parse_valid)

lemma insert_or_replace_same_key:
  "key a = key b \<Longrightarrow>
   insert_or_replace key b (insert_or_replace key a rows) = insert_or_replace key b rows"
  by (simp add: insert_or_replace_def)

lemma insert_or_replace_rows_of_key:
  "filter (\<lambda>r. key r = key row) (insert_or_replace key row rows) = [row]"
  by (simp add: insert_or_replace_def)

lemma find_append_None: "find P xs = None \<Longrightarrow> find P (xs @ ys) = find P ys"
  by (induction xs) (auto split: if_splits)

lemma find_insert_or_replace:
  "find (\<lambda>r. key r = key row) (insert_or_replace key row rows) = Some row"
proof -
  have "find (\<lambda>r. key r = key row) (filter (\<lambda>r. key r \<noteq> key row) rows) = None"
    by (simp add: find_None_iff)
  then show ?thesis
    by (simp add: insert_or_replace_def find_append_None)
qed

lemma insert_or_replace_distinct:
  "distinct (map key rows) \<Longrightarrow> distinct (map key (insert_or_replace key row rows))"
  by (auto simp: insert_or_replace_def distinct_map_filter)

lemma insert_or_replace_singleton:
  "list_all (\<lambda>r. key r = key row) rows \<Longrightarrow> insert_or_replace key row rows = [row]"
  by (simp add: insert_or_replace_def list_all_iff)

text \<open>Under the table constraints the pending table is empty or holds one row.\<close>

lemma pending_at_most_one:
  assumes "table_constraints db"
  shows "pending_operations db = [] \<or> (\<exists>r. pending_operations db = [r] \<and> p_id r = 1)"
proof (cases "pending_operations db")
  case Nil
  then show ?thesis by simp
next
  case (Cons r rs)
  have "rs = []"
  proof (cases rs)
    case Nil
    then show ?thesis .
  next
    case (Cons r' rs')
    then have "p_id r = 1" "p_id r' = 1" "p_id r \<noteq> p_id r'"
      using assms \<open>pending_operations db = r # rs\<close> by (auto simp: table_constraints_def)
    then show ?thesis by simp
  qed
  then show ?thesis
    using assms Cons by (auto simp: table_constraints_def)
qed

lemma setPendingSpawn_valid:
  assumes "table_constraints db"
    and "ps_branch a \<noteq> []" "ps_path a \<noteq> []" "ps_sessionId a \<noteq> []"
  shows "\<exists>ws. setPendingSpawn db a = Inr (ws,
           db\<lparr>pending_operations :=
                [\<lparr>p_id = 1, p_type = ''spawn'', p_branch = ps_branch a, p_path = ps_path a,
                  p_session_id = Some (ps_sessionId a)\<rparr>]\<rparr>)"
proof -
  have "list_all (\<lambda>r. p_id r = 1) (pending_operations db)"
    using assms(1) by (simp add: table_constraints_def)
  then have "insert_or_replace p_id
               \<lparr>p_id = 1, p_type = ''spawn'', p_branch = ps_branch a, p_path = ps_path a,
                p_session_id = Some (ps_sessionId a)\<rparr> (pending_operations db)
             = [\<lparr>p_id = 1, p_type = ''spawn'', p_branch = ps_branch a, p_path = ps_path a,
                 p_session_id = Some (ps_sessionId a)\<rparr>]"
    by (intro insert_or_replace_singleton) simp
  then show ?thesis
    using assms(2-4) by (simp add: setPendingSpawn_def pendingSpawnSchema_parse_valid Let_def)
qed

lemma setPendingDelete_valid:
  assumes "table_constraints db"
    and "pd_branch b \<noteq> []" "pd_path b \<noteq> []"
  shows "\<exists>ws. setPendingDelete db b = Inr (ws,
           db\<lparr>pending_operations :=
                [\<lparr>p_id = 1, p_type = ''delete'', p_branch = pd_branch b, p_path = pd_path b,
                  p_session_id = None\<rparr>]\<rparr>)"
proof -
  have "list_all (\<lambda>r. p_id r = 1) (pending_operations db)"
    using assms(1) by (simp add: table_constraints_def)
  then have "insert_or_replace p_id
               \<lparr>p_id = 1, p_type = ''delete'', p_branch = pd_branch b, p_path = pd_path b,
                p_session_id = None\<rparr> (pending_operations db)
             = [\<lparr>p_id = 1, p_type = ''delete'', p_branch = pd_branch b, p_path = pd_path b,
                 p_session_id = None\<rparr>]"
    by (intro insert_or_replace_singleton) simp
  then show ?thesis
    using assms(2-3) by (simp add: setPendingDelete_def pendingDeleteSchema_parse_valid Let_def)
qed

lemma table_constraints_pending_update:
  "table_constraints db \<Longrightarrow> distinct (map p_id rows) \<Longrightarrow> list_all (\<lambda>r. p_id r = 1) rows \<Longrightarrow>
   table_constraints (db\<lparr>pending_operations := rows\<rparr>)"
  by (simp add: table_constraints_def)

lemma delete_where_keeps:
  "distinct (map key rows) \<Longrightarrow> distinct (map key (delete_where cond rows))"
  "list_all P rows \<Longrightarrow> list_all P (delete_where cond rows)"
  by (auto simp: delete_where_def distinct_map_filter list_all_iff)

lemma run_call_constraints:
  assumes "table_constraints db"
  shows "table_constraints (run_call db call)"
proof (cases call)
  case (SetPendingSpawn a)
  have "table_constraints (db\<lparr>pending_operations :=
          insert_or_replace p_id
            \<lparr>p_id = 1, p_type = ''spawn'', p_branch = ps_branch a, p_path = ps_path a,
             p_session_id = Some (ps_sessionId a)\<rparr> (pending_operations db)\<rparr>)"
    using assms
    by (intro table_constraints_pending_update insert_or_replace_distinct)
       (auto simp: table_constraints_def insert_or_replace_def list_all_iff)
  then show ?thesis
    using assms SetPendingSpawn pendingSpawnSchema_parse_cases [of a]
    by (auto simp: setPendingSpawn_def Let_def)
next
  case (SetPendingDelete b)
  have "table_constraints (db\<lparr>pending_operations :=
          insert_or_replace p_id
            \<lparr>p_id = 1, p_type = ''delete'', p_branch = pd_branch b, p_path = pd_path b,
             p_session_id = None\<rparr> (pending_operations db)\<rparr>)"
    using assms
    by (intro table_constraints_pending_update insert_or_replace_distinct)
       (auto simp: table_constraints_def insert_or_replace_def list_all_iff)
  then show ?thesis
    using assms SetPendingDelete pendingDeleteSchema_parse_cases [of b]
    by (auto simp: setPendingDelete_def Let_def)
next
  case ClearPendingSpawn
  then show ?thesis
    using assms
    by (auto simp: clearPendingSpawn_def table_constraints_def intro: delete_where_keeps)
next
  case ClearPendingDelete
  then show ?thesis
    using assms
    by (auto simp: clearPendingDelete_def table_constraints_def intro: delete_where_keeps)
qed

lemma run_calls_constraints:
  "table_constraints db \<Longrightarrow> table_constraints (run_calls db calls)"
  unfolding run_calls_def
  by (induction calls arbitrary: db) (simp_all add: run_call_constraints)

lemma getPendingSpawn_Some_tag:
  assumes "getPendingSpawn db = Some p"
  shows "\<exists>r \<in> set (pending_operations db). p_type r = ''spawn'' \<and> p_branch r = ps_branch p
           \<and> p_path r = ps_path p"
proof -
  obtain row where row: "find (\<lambda>r. p_id r = 1 \<and> p_type r = ''spawn'') (pending_operations db) = Some row"
    and p: "p = \<lparr>ps_branch = p_branch row, ps_path = p_path row,
                ps_sessionId = (case p_session_id row of None \<Rightarrow> [] | Some i \<Rightarrow> i)\<rparr>"
    using assms by (auto simp: getPendingSpawn_def select_first_def split: option.splits)
  from row have "row \<in> set (pending_operations db)" "p_type row = ''spawn''"
    by (auto simp: find_Some_iff)
  then show ?thesis using p by auto
qed

lemma getPendingDelete_Some_tag:
  assumes "getPendingDelete db = Some p"
  shows "\<exists>r \<in> set (pending_operations db). p_type r = ''delete'' \<and> p_branch r = pd_branch p
           \<and> p_path r = pd_path p"
proof -
  obtain row where row: "find (\<lambda>r. p_id r = 1 \<and> p_type r = ''delete'') (pending_operations db) = Some row"
    and p: "p = \<lparr>pd_branch = p_branch row, pd_path = p_path row\<rparr>"
    using assms by (auto simp: getPendingDelete_def select_first_def split: option.splits)
  from row have "row \<in> set (pending_operations db)" "p_type row = ''delete''"
    by (auto simp: find_Some_iff)
  then show ?thesis using p by auto
qed

lemma empty_fields_Nil_iff:
  "empty_fields kvs = [] \<longleftrightarrow> (\<forall>(name, v) \<in> set kvs. v \<noteq> [])"
  by (auto simp: empty_fields_def filter_empty_conv min_one_iff)

lemma sessionSchema_parse_invalid:
  "s_id s = [] \<or> s_branch s = [] \<or> s_path s = [] \<or> s_createdAt s = [] \<Longrightarrow>
   \<exists>fields. fields \<noteq> [] \<and> sessionSchema_parse s = Inl (ZodError fields)"
proof -
  assume a: "s_id s = [] \<or> s_branch s = [] \<or> s_path s = [] \<or> s_createdAt s = []"
  let ?kvs = "[(''id'', s_id s), (''branch'', s_branch s), (''path'', s_path s),
               (''createdAt'', s_createdAt s)]"
  have "empty_fields ?kvs \<noteq> []"
    unfolding empty_fields_Nil_iff using a by auto
  then obtain e es where "empty_fields ?kvs = e # es"
    by (cases "empty_fields ?kvs") auto
  then show ?thesis
    by (simp add: sessionSchema_parse_def)
qed

lemma pendingSpawnSchema_parse_invalid:
  "ps_branch s = [] \<or> ps_path s = [] \<or> ps_sessionId s = [] \<Longrightarrow>
   \<exists>fields. fields \<noteq> [] \<and> pendingSpawnSchema_parse s = Inl (ZodError fields)"
proof -
  assume a: "ps_branch s = [] \<or> ps_path s = [] \<or> ps_sessionId s = []"
  let ?kvs = "[(''branch'', ps_branch s), (''path'', ps_path s), (''sessionId'', ps_sessionId s)]"
  have "empty_fields ?kvs \<noteq> []"
    unfolding empty_fields_Nil_iff using a by auto
  then obtain e es where "empty_fields ?kvs = e # es"
    by (cases "empty_fields ?kvs") auto
  then show ?thesis
    by (simp add: pendingSpawnSchema_parse_def)
qed

lemma pendingDeleteSchema_parse_invalid:
  "pd_branch d = [] \<or> pd_path d = [] \<Longrightarrow>
   \<exists>fields. fields \<noteq> [] \<and> pendingDeleteSchema_parse d = Inl (ZodError fields)"
proof -
  assume a: "pd_branch d = [] \<or> pd_path d = []"
  let ?kvs = "[(''branch'', pd_branch d), (''path'', pd_path d)]"
  have "empty_fields ?kvs \<noteq> []"
    unfolding empty_fields_Nil_iff using a by auto
  then obtain e es where "empty_fields ?kvs = e # es"
    by (cases "empty_fields ?kvs") auto
  then show ?thesis
    by (simp add: pendingDeleteSchema_parse_def)
qed

lemma sessionSchema_parse_Inr: "sessionSchema_parse s = Inr x \<Longrightarrow> x = s"
  by (simp add: sessionSchema_parse_def split: list.splits)

lemma addSession_invalid:
  assumes "s_id s = [] \<or> s_branch s = [] \<or> s_path s = [] \<or> s_createdAt s = []"
  shows "(\<exists>fields. fields \<noteq> [] \<and> addSession db s = Inl (ZodError fields))
         \<and> after_addSession db s = db"
  using sessionSchema_parse_invalid [OF assms]
  by (auto simp: addSession_def after_addSession_def)

lemma setPendingSpawn_invalid:
  assumes "ps_branch a = [] \<or> ps_path a = [] \<or> ps_sessionId a = []"
  shows "(\<exists>fields. fields \<noteq> [] \<and> setPendingSpawn db a = Inl (ZodError fields))
         \<and> run_call db (SetPendingSpawn a) = db"
  using pendingSpawnSchema_parse_invalid [OF assms]
  by (auto simp: setPendingSpawn_def)

lemma setPendingDelete_invalid:
  assumes "pd_branch b = [] \<or> pd_path b = []"
  shows "(\<exists>fields. fields \<noteq> [] \<and> setPendingDelete db b = Inl (ZodError fields))
         \<and> run_call db (SetPendingDelete b) = db"
  using pendingDeleteSchema_parse_invalid [OF assms]
  by (auto simp: setPendingDelete_def)

lemma insert_or_replace_other_keys:
  "filter (\<lambda>r. key r \<noteq> key row) (insert_or_replace key row rows)
     = filter (\<lambda>r. key r \<noteq> key row) rows"
  by (simp add: insert_or_replace_def)

text \<open>What one call of \<open>addSession\<close> with a session the schema accepts leaves.\<close>

lemma addSession_stores:
  assumes "s_id s \<noteq> []" "s_branch s \<noteq> []" "s_path s \<noteq> []" "s_createdAt s \<noteq> []"
  shows "\<exists>db'. addSession db s = Inr db' \<and> after_addSession db s = db'
           \<and> filter (\<lambda>r. s_id r = s_id s) (sessions db') = [s]
           \<and> filter (\<lambda>r. s_id r \<noteq> s_id s) (sessions db')
               = filter (\<lambda>r. s_id r \<noteq> s_id s) (sessions db)
           \<and> pending_operations db' = pending_operations db
           \<and> getSession db' (s_id s) = Some s
           \<and> addSession db' s = Inr db'"
proof -
  let ?db' = "db\<lparr>sessions := insert_or_replace s_id s (sessions db)\<rparr>"
  have 1: "addSession db s = Inr ?db'"
    using assms by (simp add: addSession_valid)
  then have 2: "after_addSession db s = ?db'"
    by (simp add: after_addSession_def)
  have 3: "filter (\<lambda>r. s_id r = s_id s) (sessions ?db') = [s]"
    by (simp add: insert_or_replace_rows_of_key)
  have 4: "filter (\<lambda>r. s_id r \<noteq> s_id s) (sessions ?db')
             = filter (\<lambda>r. s_id r \<noteq> s_id s) (sessions db)"
    by (simp add: insert_or_replace_other_keys)
  have "find (\<lambda>r. s_id r = s_id s) (sessions ?db') = Some s"
    by (simp add: find_insert_or_replace)
  then have 5: "getSession ?db' (s_id s) = Some s"
    using assms by (cases s) (simp add: getSession_def select_first_def)
  have "insert_or_replace s_id s (sessions ?db') = sessions ?db'"
    by (simp add: insert_or_replace_same_key)
  then have 6: "addSession ?db' s = Inr ?db'"
    using assms by (simp add: addSession_valid)
  from 1 2 3 4 5 6 show ?thesis by simp
qed

text \<open>
  Claim C9, on the sessions the boundary schema accepts.  For every database state and
  every two sessions with the same id, where the fields of the second are all non-empty,
  \<open>addSession\<close> with the first and then with the second leaves exactly one row for that
  id, holding the second call's branch, path and createdAt; the rows of the other ids
  and the pending operations are as they were before the two calls; and a further call
  with the same data leaves the state as it is.  Where the fields of the first session
  are non-empty too, the first call has stored its row, which the second replaces.  A
  session with an empty field makes \<open>addSession\<close> throw a \<open>ZodError\<close>, and nothing is
  written.
\<close>

theorem addSession_upsert_by_id:
  assumes "s_id s1 = s_id s2"
    and "s_id s2 \<noteq> []" "s_branch s2 \<noteq> []" "s_path s2 \<noteq> []" "s_createdAt s2 \<noteq> []"
  shows "(\<exists>db2. addSession (after_addSession db s1) s2 = Inr db2
            \<and> filter (\<lambda>r. s_id r = s_id s2) (sessions db2) = [s2]
            \<and> filter (\<lambda>r. s_id r \<noteq> s_id s2) (sessions db2)
                = filter (\<lambda>r. s_id r \<noteq> s_id s2) (sessions db)
            \<and> pending_operations db2 = pending_operations db
            \<and> getSession db2 (s_id s2) = Some s2
            \<and> addSession db2 s2 = Inr db2)
         \<and> (s_branch s1 \<noteq> [] \<and> s_path s1 \<noteq> [] \<and> s_createdAt s1 \<noteq> [] \<longrightarrow>
              (\<exists>db1. addSession db s1 = Inr db1 \<and> after_addSession db s1 = db1
                 \<and> filter (\<lambda>r. s_id r = s_id s1) (sessions db1) = [s1]
                 \<and> filter (\<lambda>r. s_id r \<noteq> s_id s1) (sessions db1)
                     = filter (\<lambda>r. s_id r \<noteq> s_id s1) (sessions db)
                 \<and> getSession db1 (s_id s1) = Some s1
                 \<and> addSession db1 s1 = Inr db1))
         \<and> (s_id s3 = [] \<or> s_branch s3 = [] \<or> s_path s3 = [] \<or> s_createdAt s3 = [] \<longrightarrow>
              (\<exists>fields. fields \<noteq> [] \<and> addSession db s3 = Inl (ZodError fields))
              \<and> after_addSession db s3 = db)"
proof -
  let ?db1 = "after_addSession db s1"
  have rows: "filter (\<lambda>r. s_id r \<noteq> s_id s2) (sessions ?db1)
                = filter (\<lambda>r. s_id r \<noteq> s_id s2) (sessions db)"
    and pend: "pending_operations ?db1 = pending_operations db"
  proof -
    show "filter (\<lambda>r. s_id r \<noteq> s_id s2) (sessions ?db1)
            = filter (\<lambda>r. s_id r \<noteq> s_id s2) (sessions db)"
      using assms(1)
      by (auto simp: after_addSession_def addSession_def insert_or_replace_def
          dest!: sessionSchema_parse_Inr split: sum.splits)
    show "pending_operations ?db1 = pending_operations db"
      by (auto simp: after_addSession_def addSession_def split: sum.splits)
  qed
  obtain db2 where db2: "addSession ?db1 s2 = Inr db2"
      "filter (\<lambda>r. s_id r = s_id s2) (sessions db2) = [s2]"
      "filter (\<lambda>r. s_id r \<noteq> s_id s2) (sessions db2)
         = filter (\<lambda>r. s_id r \<noteq> s_id s2) (sessions ?db1)"
      "pending_operations db2 = pending_operations ?db1"
      "getSession db2 (s_id s2) = Some s2"
      "addSession db2 s2 = Inr db2"
    using addSession_stores [OF assms(2-5), of ?db1] by blast
  have first: "\<exists>db2. addSession ?db1 s2 = Inr db2
            \<and> filter (\<lambda>r. s_id r = s_id s2) (sessions db2) = [s2]
            \<and> filter (\<lambda>r. s_id r \<noteq> s_id s2) (sessions db2)
                = filter (\<lambda>r. s_id r \<noteq> s_id s2) (sessions db)
            \<and> pending_operations db2 = pending_operations db
            \<and> getSession db2 (s_id s2) = Some s2
            \<and> addSession db2 s2 = Inr db2"
    using db2 rows pend by (intro exI [of _ db2]) simp
  have second: "\<exists>db1. addSession db s1 = Inr db1 \<and> after_addSession db s1 = db1
                 \<and> filter (\<lambda>r. s_id r = s_id s1) (sessions db1) = [s1]
                 \<and> filter (\<lambda>r. s_id r \<noteq> s_id s1) (sessions db1)
                     = filter (\<lambda>r. s_id r \<noteq> s_id s1) (sessions db)
                 \<and> getSession db1 (s_id s1) = Some s1
                 \<and> addSession db1 s1 = Inr db1"
    if "s_branch s1 \<noteq> [] \<and> s_path s1 \<noteq> [] \<and> s_createdAt s1 \<noteq> []"
    using addSession_stores [of s1 db] that assms(1,2) by auto
  have third: "(\<exists>fields. fields \<noteq> [] \<and> addSession db s3 = Inl (ZodError fields))
              \<and> after_addSession db s3 = db"
    if "s_id s3 = [] \<or> s_branch s3 = [] \<or> s_path s3 = [] \<or> s_createdAt s3 = []"
    using that by (rule addSession_invalid)
  from first second third show ?thesis by blast
qed

theorem addSession_upsert_by_id_witness:
  "s_id session_one = s_id session_one_again
   \<and> s_id session_one_again \<noteq> [] \<and> s_branch session_one_again \<noteq> []
   \<and> s_path session_one_again \<noteq> [] \<and> s_createdAt session_one_again \<noteq> []
   \<and> s_branch session_one \<noteq> [] \<and> s_path session_one \<noteq> [] \<and> s_createdAt session_one \<noteq> []
   \<and> s_branch session_one_no_branch = []
   \<and> (\<exists>db1 db2. addSession \<lparr>sessions = [session_two], pending_operations = []\<rparr> session_one
                    = Inr db1
        \<and> getSession db1 (s_id session_one) = Some session_one
        \<and> addSession db1 session_one_again = Inr db2
        \<and> filter (\<lambda>r. s_id r = s_id session_one_again) (sessions db2) = [session_one_again]
        \<and> filter (\<lambda>r. s_id r \<noteq> s_id session_one_again) (sessions db2) = [session_two]
        \<and> getSession db2 (s_id session_one_again) = Some session_one_again)
   \<and> (\<exists>fields. addSession \<lparr>sessions = [session_two], pending_operations = []\<rparr>
                   session_one_no_branch = Inl (ZodError fields))"
proof -
  let ?db = "\<lparr>sessions = [session_two], pending_operations = []\<rparr>"
  have same: "s_id session_one = s_id session_one_again"
    and v2: "s_id session_one_again \<noteq> []" "s_branch session_one_again \<noteq> []"
      "s_path session_one_again \<noteq> []" "s_createdAt session_one_again \<noteq> []"
    and v1: "s_branch session_one \<noteq> [] \<and> s_path session_one \<noteq> [] \<and> s_createdAt session_one \<noteq> []"
    and v3: "s_id session_one_no_branch = [] \<or> s_branch session_one_no_branch = []
             \<or> s_path session_one_no_branch = [] \<or> s_createdAt session_one_no_branch = []"
    and e3: "s_branch session_one_no_branch = []"
    and two: "filter (\<lambda>r. s_id r \<noteq> s_id session_one_again) (sessions ?db) = [session_two]"
    by (simp_all add: session_one_def session_one_again_def session_one_no_branch_def
        session_two_def)
  note t = addSession_upsert_by_id [OF same v2, of ?db session_one_no_branch]
  from t v1 obtain db1 where db1: "addSession ?db session_one = Inr db1"
      "after_addSession ?db session_one = db1"
      "getSession db1 (s_id session_one) = Some session_one"
    by blast
  from t obtain db2 where db2: "addSession (after_addSession ?db session_one) session_one_again
        = Inr db2"
      "filter (\<lambda>r. s_id r = s_id session_one_again) (sessions db2) = [session_one_again]"
      "filter (\<lambda>r. s_id r \<noteq> s_id session_one_again) (sessions db2)
         = filter (\<lambda>r. s_id r \<noteq> s_id session_one_again) (sessions ?db)"
      "getSession db2 (s_id session_one_again) = Some session_one_again"
    by blast
  from t v3 obtain fields where f: "addSession ?db session_one_no_branch = Inl (ZodError fields)"
    by blast
  have ex: "\<exists>db1 db2. addSession ?db session_one = Inr db1
        \<and> getSession db1 (s_id session_one) = Some session_one
        \<and> addSession db1 session_one_again = Inr db2
        \<and> filter (\<lambda>r. s_id r = s_id session_one_again) (sessions db2) = [session_one_again]
        \<and> filter (\<lambda>r. s_id r \<noteq> s_id session_one_again) (sessions db2) = [session_two]
        \<and> getSession db2 (s_id session_one_again) = Some session_one_again"
    using db1 db2 two by (intro exI [of _ db1] exI [of _ db2]) simp
  have exf: "\<exists>fields. addSession ?db session_one_no_branch = Inl (ZodError fields)"
    using f by blast
  from v1 have v1': "s_branch session_one \<noteq> []" "s_path session_one \<noteq> []"
      "s_createdAt session_one \<noteq> []"
    by simp_all
  from same v2 v1' e3 ex exf show ?thesis
    by (intro conjI) assumption+
qed

text \<open>
  The claim as first stated, for every two sessions with the same id, fails where the
  second session has an empty branch: \<open>addSession\<close> throws and the stored row keeps the
  values of the first call.
\<close>

theorem addSession_upsert_counterexample:
  "s_id session_one = s_id session_one_no_branch
   \<and> addSession empty_database session_one
       = Inr \<lparr>sessions = [session_one], pending_operations = []\<rparr>
   \<and> addSession \<lparr>sessions = [session_one], pending_operations = []\<rparr> session_one_no_branch
       = Inl (ZodError [''branch''])
   \<and> s_branch session_one \<noteq> s_branch session_one_no_branch"
  by (simp add: addSession_def sessionSchema_parse_def empty_fields_def insert_or_replace_def
      empty_database_def session_one_def session_one_no_branch_def)

text \<open>
  Claim C1, on the payloads the boundary schemas accept.  The pending table holds at most
  one row.  From any state of the database, \<open>setPendingSpawn(A)\<close> followed by
  \<open>setPendingDelete(B)\<close>, with no empty field in \<open>B\<close>, leaves exactly one row, tagged
  \<open>delete\<close>, with the branch and path of \<open>B\<close>, the sessions as they were, and
  \<open>getPendingSpawn\<close> then returns null.  Where \<open>A\<close> has no empty field either, the
  first call has stored the one row of \<open>A\<close>, tagged \<open>spawn\<close>, which \<open>getPendingSpawn\<close>
  returns until the second call overwrites it.  A setter whose payload has an empty
  field throws a \<open>ZodError\<close>, and nothing is written.  After any sequence of the four
  set and clear calls the table holds no row or one row, and a getter returns a value
  only when the stored row carries its tag.
\<close>

theorem pending_operation_singleton:
  assumes "table_constraints db"
    and "pd_branch b \<noteq> []" "pd_path b \<noteq> []"
  shows "(\<exists>w2 db2.
            setPendingDelete (run_call db (SetPendingSpawn a)) b = Inr (w2, db2)
            \<and> pending_operations db2
                = [\<lparr>p_id = 1, p_type = ''delete'', p_branch = pd_branch b, p_path = pd_path b,
                    p_session_id = None\<rparr>]
            \<and> sessions db2 = sessions db
            \<and> getPendingSpawn db2 = None \<and> getPendingDelete db2 = Some b)
         \<and> (ps_branch a \<noteq> [] \<and> ps_path a \<noteq> [] \<and> ps_sessionId a \<noteq> [] \<longrightarrow>
              (\<exists>w1 db1.
                 setPendingSpawn db a = Inr (w1, db1) \<and> run_call db (SetPendingSpawn a) = db1
                 \<and> pending_operations db1
                     = [\<lparr>p_id = 1, p_type = ''spawn'', p_branch = ps_branch a,
                         p_path = ps_path a, p_session_id = Some (ps_sessionId a)\<rparr>]
                 \<and> getPendingSpawn db1 = Some a \<and> getPendingDelete db1 = None))
         \<and> (ps_branch a' = [] \<or> ps_path a' = [] \<or> ps_sessionId a' = [] \<longrightarrow>
              (\<exists>fields. fields \<noteq> [] \<and> setPendingSpawn db a' = Inl (ZodError fields))
              \<and> run_call db (SetPendingSpawn a') = db)
         \<and> (pd_branch b' = [] \<or> pd_path b' = [] \<longrightarrow>
              (\<exists>fields. fields \<noteq> [] \<and> setPendingDelete db b' = Inl (ZodError fields))
              \<and> run_call db (SetPendingDelete b') = db)
         \<and> length (pending_operations (run_calls db calls)) \<le> 1
         \<and> (\<forall>p. getPendingSpawn (run_calls db calls) = Some p \<longrightarrow>
               (\<exists>r. pending_operations (run_calls db calls) = [r] \<and> p_type r = ''spawn''))
         \<and> (\<forall>p. getPendingDelete (run_calls db calls) = Some p \<longrightarrow>
               (\<exists>r. pending_operations (run_calls db calls) = [r] \<and> p_type r = ''delete''))"
proof -
  let ?row = "\<lparr>p_id = 1, p_type = ''delete'', p_branch = pd_branch b, p_path = pd_path b,
               p_session_id = None\<rparr>"
  let ?srow = "\<lparr>p_id = 1, p_type = ''spawn'', p_branch = ps_branch a, p_path = ps_path a,
                p_session_id = Some (ps_sessionId a)\<rparr>"
  let ?db1 = "run_call db (SetPendingSpawn a)"
  have c1: "table_constraints ?db1"
    using assms(1) by (rule run_call_constraints)
  have s1: "sessions ?db1 = sessions db"
    by (auto simp: setPendingSpawn_def Let_def split: sum.splits)
  obtain w2 where 2: "setPendingDelete ?db1 b = Inr (w2, ?db1\<lparr>pending_operations := [?row]\<rparr>)"
    using setPendingDelete_valid [OF c1 assms(2-3)] by blast
  have 3: "getPendingSpawn (?db1\<lparr>pending_operations := [?row]\<rparr>) = None"
    by (simp add: getPendingSpawn_def select_first_def)
  have 4: "getPendingDelete (?db1\<lparr>pending_operations := [?row]\<rparr>) = Some b"
    by (cases b) (simp add: getPendingDelete_def select_first_def)
  have first: "\<exists>w2 db2.
            setPendingDelete ?db1 b = Inr (w2, db2)
            \<and> pending_operations db2 = [?row]
            \<and> sessions db2 = sessions db
            \<and> getPendingSpawn db2 = None \<and> getPendingDelete db2 = Some b"
    using 2 3 4 s1
    by (intro exI [of _ w2] exI [of _ "?db1\<lparr>pending_operations := [?row]\<rparr>"]) simp
  have second: "\<exists>w1 db1.
                 setPendingSpawn db a = Inr (w1, db1) \<and> run_call db (SetPendingSpawn a) = db1
                 \<and> pending_operations db1 = [?srow]
                 \<and> getPendingSpawn db1 = Some a \<and> getPendingDelete db1 = None"
    if a: "ps_branch a \<noteq> [] \<and> ps_path a \<noteq> [] \<and> ps_sessionId a \<noteq> []"
  proof -
    obtain w1 where 1: "setPendingSpawn db a = Inr (w1, db\<lparr>pending_operations := [?srow]\<rparr>)"
      using setPendingSpawn_valid [OF assms(1), of a] a by blast
    have 5: "getPendingSpawn (db\<lparr>pending_operations := [?srow]\<rparr>) = Some a"
      by (cases a) (simp add: getPendingSpawn_def select_first_def)
    have 6: "getPendingDelete (db\<lparr>pending_operations := [?srow]\<rparr>) = None"
      by (simp add: getPendingDelete_def select_first_def)
    show ?thesis
      using 1 5 6
      by (intro exI [of _ w1] exI [of _ "db\<lparr>pending_operations := [?srow]\<rparr>"]) simp
  qed
  have third: "(\<exists>fields. fields \<noteq> [] \<and> setPendingSpawn db a' = Inl (ZodError fields))
              \<and> run_call db (SetPendingSpawn a') = db"
    if "ps_branch a' = [] \<or> ps_path a' = [] \<or> ps_sessionId a' = []"
    using that by (rule setPendingSpawn_invalid)
  have fourth: "(\<exists>fields. fields \<noteq> [] \<and> setPendingDelete db b' = Inl (ZodError fields))
              \<and> run_call db (SetPendingDelete b') = db"
    if "pd_branch b' = [] \<or> pd_path b' = []"
    using that by (rule setPendingDelete_invalid)
  have c: "table_constraints (run_calls db calls)"
    using assms(1) by (rule run_calls_constraints)
  then have one: "pending_operations (run_calls db calls) = []
      \<or> (\<exists>r. pending_operations (run_calls db calls) = [r] \<and> p_id r = 1)"
    by (rule pending_at_most_one)
  then have len: "length (pending_operations (run_calls db calls)) \<le> 1"
    by auto
  have sp: "\<exists>r. pending_operations (run_calls db calls) = [r] \<and> p_type r = ''spawn''"
    if "getPendingSpawn (run_calls db calls) = Some p" for p
    using getPendingSpawn_Some_tag [OF that] one by auto
  have de: "\<exists>r. pending_operations (run_calls db calls) = [r] \<and> p_type r = ''delete''"
    if "getPendingDelete (run_calls db calls) = Some p" for p
    using getPendingDelete_Some_tag [OF that] one by auto
  from first second third fourth len sp de show ?thesis by blast
qed

theorem pending_operation_singleton_witness:
  "table_constraints empty_database
   \<and> pd_branch delete_b \<noteq> [] \<and> pd_path delete_b \<noteq> []
   \<and> ps_branch spawn_a \<noteq> [] \<and> ps_path spawn_a \<noteq> [] \<and> ps_sessionId spawn_a \<noteq> []
   \<and> ps_path spawn_no_path = [] \<and> pd_branch delete_no_branch = []
   \<and> (\<exists>w1 db1 w2 db2.
        setPendingSpawn empty_database spawn_a = Inr (w1, db1)
        \<and> getPendingSpawn db1 = Some spawn_a
        \<and> setPendingDelete db1 delete_b = Inr (w2, db2)
        \<and> getPendingSpawn db2 = None \<and> getPendingDelete db2 = Some delete_b)
   \<and> (\<exists>fields. setPendingSpawn empty_database spawn_no_path = Inl (ZodError fields))
   \<and> (\<exists>fields. setPendingDelete empty_database delete_no_branch = Inl (ZodError fields))
   \<and> length (pending_operations
        (run_calls empty_database
           [SetPendingDelete delete_b, SetPendingSpawn spawn_a, ClearPendingDelete])) \<le> 1"
proof -
  have c: "table_constraints empty_database"
    by (simp add: table_constraints_def empty_database_def)
  have vb: "pd_branch delete_b \<noteq> []" "pd_path delete_b \<noteq> []"
    and va: "ps_branch spawn_a \<noteq> [] \<and> ps_path spawn_a \<noteq> [] \<and> ps_sessionId spawn_a \<noteq> []"
    and ea: "ps_path spawn_no_path = []"
    and eb: "pd_branch delete_no_branch = []"
    by (simp_all add: delete_b_def spawn_a_def spawn_no_path_def delete_no_branch_def)
  note t = pending_operation_singleton [OF c vb, of spawn_a spawn_no_path delete_no_branch
      "[SetPendingDelete delete_b, SetPendingSpawn spawn_a, ClearPendingDelete]"]
  from t va obtain w1 db1 where db1: "setPendingSpawn empty_database spawn_a = Inr (w1, db1)"
      "run_call empty_database (SetPendingSpawn spawn_a) = db1"
      "getPendingSpawn db1 = Some spawn_a"
    by blast
  from t obtain w2 db2 where db2:
      "setPendingDelete (run_call empty_database (SetPendingSpawn spawn_a)) delete_b
         = Inr (w2, db2)"
      "getPendingSpawn db2 = None" "getPendingDelete db2 = Some delete_b"
    by blast
  from t ea obtain fa where fa: "setPendingSpawn empty_database spawn_no_path = Inl (ZodError fa)"
    by blast
  from t eb obtain fb where fb:
      "setPendingDelete empty_database delete_no_branch = Inl (ZodError fb)"
    by blast
  from t have len: "length (pending_operations
        (run_calls empty_database
           [SetPendingDelete delete_b, SetPendingSpawn spawn_a, ClearPendingDelete])) \<le> 1"
    by blast
  have ex: "\<exists>w1 db1 w2 db2.
        setPendingSpawn empty_database spawn_a = Inr (w1, db1)
        \<and> getPendingSpawn db1 = Some spawn_a
        \<and> setPendingDelete db1 delete_b = Inr (w2, db2)
        \<and> getPendingSpawn db2 = None \<and> getPendingDelete db2 = Some delete_b"
    using db1 db2 by (intro exI [of _ w1] exI [of _ db1] exI [of _ w2] exI [of _ db2]) simp
  have exa: "\<exists>fields. setPendingSpawn empty_database spawn_no_path = Inl (ZodError fields)"
    using fa by blast
  have exb: "\<exists>fields. setPendingDelete empty_database delete_no_branch = Inl (ZodError fields)"
    using fb by blast
  from va have va': "ps_branch spawn_a \<noteq> []" "ps_path spawn_a \<noteq> []" "ps_sessionId spawn_a \<noteq> []"
    by simp_all
  from c vb va' ea eb ex exa exb len show ?thesis
    by (intro conjI) assumption+
qed

text \<open>
  The claim as first stated, for any payloads, fails where \<open>B\<close> has an empty branch:
  \<open>setPendingDelete\<close> throws, the pending row stays the spawn of \<open>A\<close>, and
  \<open>getPendingSpawn\<close> still returns it.
\<close>

theorem pending_operation_singleton_counterexample:
  "setPendingSpawn empty_database spawn_a
     = Inr ([], \<lparr>sessions = [],
                 pending_operations =
                   [\<lparr>p_id = 1, p_type = ''spawn'', p_branch = ''feature/a'',
                     p_path = ''/wt/feature/a'', p_session_id = Some ''ses_1''\<rparr>]\<rparr>)
   \<and> setPendingDelete
        \<lparr>sessions = [],
         pending_operations =
           [\<lparr>p_id = 1, p_type = ''spawn'', p_branch = ''feature/a'',
             p_path = ''/wt/feature/a'', p_session_id = Some ''ses_1''\<rparr>]\<rparr>
        delete_no_branch
      = Inl (ZodError [''branch''])
   \<and> getPendingSpawn
        \<lparr>sessions = [],
         pending_operations =
           [\<lparr>p_id = 1, p_type = ''spawn'', p_branch = ''feature/a'',
             p_path = ''/wt/feature/a'', p_session_id = Some ''ses_1''\<rparr>]\<rparr>
      = Some spawn_a"
  by (simp add: setPendingSpawn_def setPendingDelete_def pendingSpawnSchema_parse_def
      pendingDeleteSchema_parse_def empty_fields_def getPendingSpawn_def getPendingDelete_def
      select_first_def insert_or_replace_def empty_database_def spawn_a_def
      delete_no_branch_def Let_def)

section \<open>Results on the trace\<close>

text \<open>
  \<open>emits S w w'\<close>: the world \<open>w'\<close> continues the trace of \<open>w\<close>, and every event
  added satisfies \<open>S\<close>.
\<close>

lemma emits_refl: "emits S w w"
  by (simp add: emits_def)

lemma emits_trans: "emits S w w1 \<Longrightarrow> emits S w1 w2 \<Longrightarrow> emits S w w2"
  by (auto simp: emits_def)

lemma emits_mono: "emits S w w' \<Longrightarrow> (\<And>e. S e \<Longrightarrow> T e) \<Longrightarrow> emits T w w'"
  by (auto simp: emits_def list_all_iff)

lemma emits_emit: "S e \<Longrightarrow> emits S w (emit e w)"
  by (simp add: emits_def emit_def)

lemma emits_files_update: "emits S w w' \<Longrightarrow> emits S w (w'\<lparr>files := fs\<rparr>)"
  by (simp add: emits_def)

lemma emits_log: "S (Log l msg) \<Longrightarrow> emits S w (log l msg w)"
  by (simp add: log_def emits_emit)

lemma emits_lstat: "lstat p w = (r, w') \<Longrightarrow> S (Lstat p) \<Longrightarrow> emits S w w'"
  by (auto simp: lstat_def emits_emit)

lemma emits_stat: "stat h p w = (r, w') \<Longrightarrow> S (Stat p) \<Longrightarrow> emits S w w'"
  by (auto simp: stat_def emits_emit)

lemma emits_readdir: "readdir h p w = (r, w') \<Longrightarrow> S (Readdir p) \<Longrightarrow> emits S w w'"
  by (auto simp: readdir_def emits_emit)

lemma emits_file_exists: "file_exists h p w = (r, w') \<Longrightarrow> S (Exists p) \<Longrightarrow> emits S w w'"
  by (auto simp: file_exists_def emits_emit)

lemma emits_file_text: "file_text h p w = (r, w') \<Longrightarrow> S (ReadText p) \<Longrightarrow> emits S w w'"
  by (auto simp: file_text_def emits_emit)

lemma emits_mkdir: "mkdir h p w = (r, w') \<Longrightarrow> S (Mkdir p) \<Longrightarrow> emits S w w'"
  by (auto simp: mkdir_def emits_emit emits_files_update split: option.splits)

lemma emits_rm: "rm h p w = (r, w') \<Longrightarrow> S (Rm p) \<Longrightarrow> emits S w w'"
  by (auto simp: rm_def emits_emit emits_files_update split: option.splits)

lemma emits_symlink: "symlink h t p w = (r, w') \<Longrightarrow> S (MakeSymlink t p) \<Longrightarrow> emits S w w'"
  by (auto simp: symlink_def emits_emit emits_files_update split: option.splits)

lemma emits_write_file: "write_file h p w = (r, w') \<Longrightarrow> S (Write p) \<Longrightarrow> emits S w w'"
  by (auto simp: write_file_def emits_emit emits_files_update split: option.splits)

lemma emits_copy_file: "copy_file h s p w = (r, w') \<Longrightarrow> S (CopyFile s p) \<Longrightarrow> emits S w w'"
  by (auto simp: copy_file_def emits_emit emits_files_update split: option.splits)

lemma emits_git: "git h args cwd w = (r, w') \<Longrightarrow> S (Git args cwd) \<Longrightarrow> emits S w w'"
  by (auto simp: git_def Let_def emits_emit emits_files_update
      split: prod.splits process_result.splits if_splits)

lemma emits_branchExists:
  "branchExists h cwd branch w = (r, w') \<Longrightarrow> S (Git [''rev-parse'', ''--verify'', branch] cwd)
   \<Longrightarrow> emits S w w'"
  by (auto simp: branchExists_def split: prod.splits intro: emits_git)

lemma emits_openTerminal:
  "openTerminal h cwd command name w = (r, w') \<Longrightarrow> S (OpenTerminal cwd command name)
   \<Longrightarrow> emits S w w'"
  by (auto simp: openTerminal_def emits_emit)

lemma files_emit [simp]: "files (emit e w) = files w"
  by (simp add: emit_def)

lemma files_log [simp]: "files (log l msg w) = files w"
  by (simp add: log_def)

lemma emits_then_log: "emits S w w' \<Longrightarrow> S (Log l msg) \<Longrightarrow> emits S w (log l msg w')"
  by (rule emits_trans [OF _ emits_log])

lemma emits_after_log: "emits S (log l msg w) w' \<Longrightarrow> S (Log l msg) \<Longrightarrow> emits S w w'"
  by (rule emits_trans [OF emits_log])

text \<open>The calls of the file system and of processes add inner events only.\<close>

lemma inner_calls:
  "stat h p w = (r1, w') \<Longrightarrow> emits inner_event w w'"
  "file_exists h p w = (r2, w') \<Longrightarrow> emits inner_event w w'"
  "file_text h p w = (r3, w') \<Longrightarrow> emits inner_event w w'"
  "mkdir h p w = (r4, w') \<Longrightarrow> emits inner_event w w'"
  "rm h p w = (r4, w') \<Longrightarrow> emits inner_event w w'"
  "symlink h t p w = (r4, w') \<Longrightarrow> emits inner_event w w'"
  "write_file h p w = (r4, w') \<Longrightarrow> emits inner_event w w'"
  "copy_file h s p w = (r4, w') \<Longrightarrow> emits inner_event w w'"
  "git h args cwd w = (r5, w') \<Longrightarrow> emits inner_event w w'"
  "branchExists h cwd branch w = (r2, w') \<Longrightarrow> emits inner_event w w'"
  by (erule emits_stat emits_file_exists emits_file_text emits_mkdir emits_rm emits_symlink
      emits_write_file emits_copy_file emits_git emits_branchExists, simp)+

lemma emits_runHooks: "emits inner_event w (runHooks h cwd commands w)"
proof (induction commands arbitrary: w)
  case Nil
  then show ?case by (simp add: emits_refl)
next
  case (Cons command commands)
  obtain result fs' where p: "bash_process h command cwd (files w) = (result, fs')"
    by (cases "bash_process h command cwd (files w)")
  define w2 where "w2 = (emit (Bash command cwd)
      (log Info (''[worktree] Running hook: '' @ command) w))\<lparr>files := fs'\<rparr>"
  define w3 where "w3 = (case result of
                  Exited exitCode stdout stderr \<Rightarrow>
                    if exitCode \<noteq> 0 then
                      log Warn (''[worktree] Hook failed (exit '' @ show_nat exitCode @ ''): ''
                                @ command
                                @ (if stderr \<noteq> [] then [newline] @ stderr else [])) w2
                    else w2
                | SpawnFailed msg \<Rightarrow>
                    log Warn (''[worktree] Hook error: '' @ error_string msg) w2)"
  have "emits inner_event w w2"
    unfolding w2_def
    by (intro emits_files_update emits_trans [OF emits_log emits_emit]) simp_all
  moreover have "emits inner_event w2 w3"
    unfolding w3_def by (auto split: process_result.splits intro: emits_log emits_refl)
  moreover have "runHooks h cwd (command # commands) w = runHooks h cwd commands w3"
    using p unfolding w3_def w2_def by (simp add: Let_def del: append.simps)
  ultimately show ?case
    using Cons.IH [of w3] by (metis emits_trans)
qed

lemma emits_loadWorktreeConfig:
  "loadWorktreeConfig h directory w = (config, w') \<Longrightarrow> emits inner_event w w'"
  unfolding loadWorktreeConfig_def Let_def
  by (auto split: prod.splits sum.splits if_splits parsed_config.splits
      dest!: inner_calls dest: emits_trans intro!: emits_then_log)

lemma emits_isPathSafe_logged:
  "isPathSafe_logged h filePath baseDir w = (safe, w') \<Longrightarrow> emits inner_event w w'"
  unfolding isPathSafe_logged_def isPathSafe_def Let_def
  by (auto split: prod.splits if_splits intro!: emits_log emits_refl)

lemma files_isPathSafe_logged:
  "isPathSafe_logged h filePath baseDir w = (safe, w') \<Longrightarrow> files w' = files w"
  unfolding isPathSafe_logged_def isPathSafe_def Let_def
  by (auto split: prod.splits if_splits)

lemma fst_isPathSafe_logged:
  "isPathSafe_logged h filePath baseDir w = (safe, w') \<Longrightarrow>
   safe = fst (isPathSafe (process_cwd h) filePath baseDir)"
  unfolding isPathSafe_logged_def by (auto split: prod.splits)

lemma emits_copyOneFile: "emits inner_event w (copyOneFile h sourceDir targetDir f w)"
  unfolding copyOneFile_def Let_def
  by (auto split: prod.splits sum.splits if_splits
      dest!: inner_calls dest: emits_trans intro!: emits_then_log)

lemma emits_copyFiles: "emits inner_event w (copyFiles h sourceDir targetDir fs w)"
proof (induction fs arbitrary: w)
  case Nil
  then show ?case by (simp add: emits_refl)
next
  case (Cons f rest)
  obtain safe w1 where s: "isPathSafe_logged h f sourceDir w = (safe, w1)"
    by (cases "isPathSafe_logged h f sourceDir w")
  then have 1: "emits inner_event w w1" by (rule emits_isPathSafe_logged)
  show ?case
  proof (cases safe)
    case False
    then show ?thesis
      using s 1 Cons.IH [of w1] by (auto intro: emits_trans)
  next
    case True
    then show ?thesis
      using s 1 emits_copyOneFile [of w1 h sourceDir targetDir f]
        Cons.IH [of "copyOneFile h sourceDir targetDir f w1"]
      by (auto intro: emits_trans)
  qed
qed

lemma emits_symlinkDir: "emits inner_event w (symlinkDir h sourceDir targetDir dir w)"
  unfolding symlinkDir_def Let_def
  by (auto split: prod.splits sum.splits if_splits
      dest!: inner_calls dest: emits_trans intro!: emits_then_log)

lemma emits_symlinkDirs: "emits inner_event w (symlinkDirs h sourceDir targetDir dirs w)"
proof (induction dirs arbitrary: w)
  case Nil
  then show ?case by (simp add: emits_refl)
next
  case (Cons dir rest)
  obtain safe w1 where s: "isPathSafe_logged h dir sourceDir w = (safe, w1)"
    by (cases "isPathSafe_logged h dir sourceDir w")
  then have 1: "emits inner_event w w1" by (rule emits_isPathSafe_logged)
  show ?case
  proof (cases safe)
    case False
    then show ?thesis
      using s 1 Cons.IH [of w1] by (auto intro: emits_trans)
  next
    case True
    then show ?thesis
      using s 1 emits_symlinkDir [of w1 h sourceDir targetDir dir]
        Cons.IH [of "symlinkDir h sourceDir targetDir dir w1"]
      by (auto intro: emits_trans)
  qed
qed

lemma emits_contains_worktrees:
  "contains_worktrees h featurePath entries w = (found, w') \<Longrightarrow> emits inner_event w w'"
proof (induction entries arbitrary: w)
  case Nil
  then show ?case by (simp add: emits_refl)
next
  case (Cons entry entries)
  then show ?case
    by (auto simp: Let_def split: prod.splits if_splits dest!: inner_calls(2)
        intro: emits_trans)
qed

lemma files_contains_worktrees:
  "contains_worktrees h featurePath entries w = (found, w') \<Longrightarrow> files w' = files w"
proof (induction entries arbitrary: w)
  case Nil
  then show ?case by simp
next
  case (Cons entry entries)
  then show ?case
    by (fastforce simp: Let_def file_exists_def split: prod.splits if_splits)
qed

lemma emits_then:
  "emits inner_event w v \<Longrightarrow> emits inner_event w (runHooks h cwd commands v)"
  "emits inner_event w v \<Longrightarrow> emits inner_event w (copyFiles h sourceDir targetDir fs v)"
  "emits inner_event w v \<Longrightarrow> emits inner_event w (symlinkDirs h sourceDir targetDir dirs v)"
  by (erule emits_trans, rule emits_runHooks emits_copyFiles emits_symlinkDirs)+

lemma emits_stage:
  "emits inner_event w (if c then runHooks h cwd commands (log l msg w) else w)"
  "emits inner_event w (if c then copyFiles h sourceDir targetDir fs (log l msg w) else w)"
  "emits inner_event w (if c then symlinkDirs h sourceDir targetDir dirs (log l msg w) else w)"
  by (cases c; simp add: emits_refl emits_then emits_log)+

lemma emits_create_repo:
  assumes "create_repo h options featurePath repo w = (result, w')"
  shows "emits inner_event w w'"
proof -
  let ?branch = "cso_branch options"
  let ?main = "path_join [cso_workspaceRoot options, ''main'', repo]"
  let ?wt = "path_join [featurePath, repo]"
  define w1 where "w1 = log Info (''[worktree-set] Processing repository: '' @ repo) w"
  obtain exists w2 where be: "branchExists h ?main ?branch w1 = (exists, w2)"
    by (cases "branchExists h ?main ?branch w1")
  define base where "base = (case cso_baseBranch options of None \<Rightarrow> ''HEAD'' | Some b \<Rightarrow> b)"
  define call where "call =
            (if exists then
               git h [''worktree'', ''add'', ?wt, ?branch] ?main
                 (log Debug (''[worktree-set] Checking out existing branch: '' @ ?branch) w2)
             else
               git h [''worktree'', ''add'', ''-b'', ?branch, ?wt, base] ?main
                     (log Debug (''[worktree-set] Creating new branch from '' @ base @ '': ''
                                 @ ?branch) w2))"
  obtain gitResult w3 where g: "call = (gitResult, w3)"
    by (cases call)
  have e01: "emits inner_event w w1"
    unfolding w1_def by (rule emits_log) simp
  have e12: "emits inner_event w1 w2"
    using be by (rule inner_calls)
  have e23: "emits inner_event w2 w3"
    using g unfolding call_def
    by (auto split: if_splits dest!: inner_calls(9) intro: emits_after_log)
  have e03: "emits inner_event w w3"
    using e01 e12 e23 by (blast intro: emits_trans)
  show ?thesis
  proof (cases gitResult)
    case (Inl err)
    then have "w' = log Warn (''[worktree-set] Failed to create worktree for '' @ repo @ '': ''
        @ err) w3"
      using assms be g unfolding create_repo_def Let_def w1_def call_def base_def
      by (simp del: append.simps)
    then show ?thesis
      using e03 by (simp add: emits_then_log)
  next
    case (Inr out)
    define w4 where "w4 = log Info (''[worktree-set] Created worktree for '' @ repo @ '' at ''
                                 @ ?wt) w3"
    obtain cfg w5 where c: "loadWorktreeConfig h ?main w4 = (cfg, w5)"
      by (cases "loadWorktreeConfig h ?main w4")
    define w6 where "w6 = (if length (sync_copyFiles (sync cfg)) > 0 then
                          copyFiles h ?main ?wt (sync_copyFiles (sync cfg))
                            (log Debug (''[worktree-set] Copying ''
                                        @ show_nat (length (sync_copyFiles (sync cfg)))
                                        @ '' files for '' @ repo) w5)
                        else w5)"
    define w7 where "w7 = (if length (sync_symlinkDirs (sync cfg)) > 0 then
                          symlinkDirs h ?main ?wt (sync_symlinkDirs (sync cfg))
                            (log Debug (''[worktree-set] Symlinking ''
                                        @ show_nat (length (sync_symlinkDirs (sync cfg)))
                                        @ '' directories for '' @ repo) w6)
                        else w6)"
    define w8 where "w8 = (if (case cso_runHooksFlag options of None \<Rightarrow> True | Some b \<Rightarrow> b)
                              \<and> length (hooks_postCreate (hooks cfg)) > 0 then
                          runHooks h ?wt (hooks_postCreate (hooks cfg))
                            (log Debug (''[worktree-set] Running ''
                                        @ show_nat (length (hooks_postCreate (hooks cfg)))
                                        @ '' hooks for '' @ repo) w7)
                        else w7)"
    have "w' = w8"
      using assms Inr be g c
      unfolding create_repo_def Let_def w1_def call_def base_def w4_def w6_def w7_def w8_def
      by (simp del: append.simps)
    moreover have "emits inner_event w3 w4"
      unfolding w4_def by (rule emits_log) simp
    moreover have "emits inner_event w4 w5"
      using c by (rule emits_loadWorktreeConfig)
    moreover have "emits inner_event w5 w6" "emits inner_event w6 w7" "emits inner_event w7 w8"
      unfolding w6_def w7_def w8_def by (rule emits_stage)+
    ultimately show ?thesis
      using e03 by (blast intro: emits_trans)
  qed
qed

lemma emits_create_repos:
  "create_repos h options featurePath repos acc w = (acc', w') \<Longrightarrow> emits inner_event w w'"
proof (induction repos arbitrary: acc w)
  case Nil
  then show ?case by (simp add: emits_refl)
next
  case (Cons repo repos)
  obtain results sc fc where acc: "acc = (results, sc, fc)"
    by (cases acc)
  obtain result w1 where r: "create_repo h options featurePath repo w = (result, w1)"
    by (cases "create_repo h options featurePath repo w")
  then have "emits inner_event w w1" by (rule emits_create_repo)
  moreover have "emits inner_event w1 w'"
    using Cons.prems r acc Cons.IH by (auto split: if_splits)
  ultimately show ?case by (rule emits_trans)
qed

text \<open>The counters of the creation loop count the results by their \<open>success\<close> flag.\<close>

lemma create_repos_counts:
  "create_repos h options featurePath repos (results, sc, fc) w = ((results', sc', fc'), w') \<Longrightarrow>
   \<exists>added. results' = results @ added \<and> map rr_repo added = repos
     \<and> sc' = sc + length (filter rr_success added)
     \<and> fc' = fc + length (filter (\<lambda>r. \<not> rr_success r) added)"
proof (induction repos arbitrary: results sc fc w)
  case Nil
  then show ?case by simp
next
  case (Cons repo repos)
  obtain result w1 where r: "create_repo h options featurePath repo w = (result, w1)"
    by (cases "create_repo h options featurePath repo w")
  then have repo: "rr_repo result = repo"
    by (auto simp: create_repo_def Let_def split: prod.splits sum.splits)
  show ?case
  proof (cases "rr_success result")
    case True
    then have "create_repos h options featurePath repos (results @ [result], sc + 1, fc) w1
        = ((results', sc', fc'), w')"
      using Cons.prems r by simp
    from Cons.IH [OF this] obtain added where
      "results' = (results @ [result]) @ added" "map rr_repo added = repos"
      "sc' = sc + 1 + length (filter rr_success added)"
      "fc' = fc + length (filter (\<lambda>r. \<not> rr_success r) added)"
      by blast
    then show ?thesis
      using True repo by (intro exI [of _ "result # added"]) simp
  next
    case False
    then have "create_repos h options featurePath repos (results @ [result], sc, fc + 1) w1
        = ((results', sc', fc'), w')"
      using Cons.prems r by simp
    from Cons.IH [OF this] obtain added where
      "results' = (results @ [result]) @ added" "map rr_repo added = repos"
      "sc' = sc + length (filter rr_success added)"
      "fc' = fc + 1 + length (filter (\<lambda>r. \<not> rr_success r) added)"
      by blast
    then show ?thesis
      using False repo by (intro exI [of _ "result # added"]) simp
  qed
qed



lemma fst_contains_worktrees:
  "fst (contains_worktrees h featurePath entries w)
     = list_ex (\<lambda>entry. exists_result h (path_join [featurePath, entry, ''.git'']) (files w)) entries"
proof (induction entries arbitrary: w)
  case Nil
  then show ?case by simp
next
  case (Cons entry entries)
  then show ?case
    by (simp add: Let_def file_exists_def split: prod.splits)
qed

section \<open>Results on the removal of a worktree set\<close>






lemma remove_tree_gone: "remove_tree p fs p = None"
  by (simp add: remove_tree_def)





section \<open>Results on the creation of a worktree set\<close>

lemma safeParse_Inl_nonempty: "safeParse schema name = Inl errs \<Longrightarrow> errs \<noteq> []"
  by (auto simp: safeParse_def split: if_splits)

text \<open>
  Claim C4.  For every list of repositories and every branch name that
  \<open>branchNameSchema\<close> rejects, \<open>createWorktreeSet\<close> returns at once: every repository
  of the list is marked failed with the error \<open>Invalid branch name: \<close> followed by the
  message of the first failed check, the success count is 0 and the failure count is the
  number of repositories.  Nothing but one line
  of the error log is added to the trace, and the file system is as it was: no feature
  directory, no git command, no file synchronisation, no hook.
\<close>

theorem createWorktreeSet_rejected_branch:
  assumes "safeParse branchNameSchema (cso_branch options) = Inl errs"
  shows "\<exists>m ms. errs = m # ms
           \<and> createWorktreeSet h options w =
               (Inr \<lparr>scr_featurePath = [],
                     scr_results =
                       map (\<lambda>repo. \<lparr>rr_repo = repo, rr_success = False, rr_worktreePath = None,
                                     rr_error = Some (''Invalid branch name: '' @ m)\<rparr>)
                         (cso_repos options),
                     scr_successCount = 0,
                     scr_failureCount = length (cso_repos options)\<rparr>,
                w\<lparr>events := events w @ [Log Error (''[worktree-set] '' @ m)]\<rparr>)"
proof -
  obtain m ms where errs: "errs = m # ms"
    using safeParse_Inl_nonempty [OF assms] by (cases errs) auto
  have "createWorktreeSet h options w =
               (Inr (all_repos_failed [] (cso_repos options) (''Invalid branch name: '' @ m)),
                log Error (''[worktree-set] '' @ m) w)"
    using assms unfolding createWorktreeSet_def Let_def errs by (simp del: append.simps)
  then show ?thesis
    using errs by (simp add: all_repos_failed_def log_def emit_def del: append.simps)
qed

theorem createWorktreeSet_rejected_branch_witness:
  "safeParse branchNameSchema (cso_branch rejected_set_options)
     = Inl [''Branch name contains invalid characters'']
   \<and> createWorktreeSet quiet_host rejected_set_options empty_world
       = (Inr \<lparr>scr_featurePath = [],
               scr_results =
                 [\<lparr>rr_repo = ''api'', rr_success = False, rr_worktreePath = None,
                   rr_error = Some ''Invalid branch name: Branch name contains invalid characters''\<rparr>,
                  \<lparr>rr_repo = ''web'', rr_success = False, rr_worktreePath = None,
                   rr_error = Some ''Invalid branch name: Branch name contains invalid characters''\<rparr>],
               scr_successCount = 0, scr_failureCount = 2\<rparr>,
          empty_world\<lparr>events :=
            [Log Error ''[worktree-set] Branch name contains invalid characters'']\<rparr>)"
proof -
  have rejected: "safeParse branchNameSchema (cso_branch rejected_set_options)
      = Inl [''Branch name contains invalid characters'']"
    by code_simp
  have repos: "cso_repos rejected_set_options = [''api'', ''web'']"
    and ev: "events empty_world = []"
    by (simp_all add: rejected_set_options_def empty_world_def)
  show ?thesis
    using createWorktreeSet_rejected_branch [OF rejected, of quiet_host empty_world]
    by (simp add: rejected repos ev)
qed

lemma events_result_lines:
  "events (foldl (\<lambda>v result. emit (result_line result) v) w results)
     = events w @ map result_line results"
  by (induction results arbitrary: w) (simp_all add: emit_def)

lemma files_result_lines:
  "files (foldl (\<lambda>v result. emit (result_line result) v) w results) = files w"
  by (induction results arbitrary: w) simp_all

lemma emitsD: "emits S w w' \<Longrightarrow> \<exists>es. events w' = events w @ es \<and> list_all S es"
  by (simp add: emits_def)

text \<open>The trace and the file system after the set-up of \<open>createWorktreeSet\<close>.\<close>

lemma createWorktreeSet_unfold:
  assumes valid: "safeParse branchNameSchema (cso_branch options) = Inr (cso_branch options)"
    and fp: "featurePath = getFeaturePath (cso_workspaceRoot options) (cso_branch options)"
    and fresh: "\<not> already_has_worktrees h featurePath (files w)"
    and run: "createWorktreeSet h options w = (Inr res, w')"
  shows "\<exists>w3 w4 results successCount failureCount w5 checks.
      events w3 = events w @ [Log Info (''[worktree-set] Creating feature directory: ''
                               @ featurePath), Readdir featurePath] @ checks
      \<and> list_all inner_event checks
      \<and> mkdir h featurePath w3 = (Inr (), w4)
      \<and> create_repos h options featurePath (cso_repos options) ([], 0, 0) w4
            = ((results, successCount, failureCount), w5)
      \<and> res = \<lparr>scr_featurePath = featurePath, scr_results = results,
                scr_successCount = successCount, scr_failureCount = failureCount\<rparr>
      \<and> w' = (let w7 = foldl (\<lambda>v result. emit (result_line result) v)
                          (emit (summary_line successCount failureCount) w5) results
              in if successCount > 0 then
                   (case openTerminal h featurePath ''opencode''
                           (sanitizeBranchForDir (cso_branch options))
                           (log Info (''[worktree-set] Launching opencode in ''
                                      @ featurePath) w7) of
                      (None, w8) \<Rightarrow> w8
                    | (Some err, w8) \<Rightarrow>
                        log Warn (''[worktree-set] Failed to open terminal: '' @ err) w8)
                 else
                   (case rm h featurePath
                           (log Error (''[worktree-set] All repositories failed, ''
                                       @ ''removing empty directory: '' @ featurePath) w7) of
                      (Inr u', w8) \<Rightarrow> w8
                    | (Inl err, w8) \<Rightarrow>
                        log Warn (''[worktree-set] Failed to remove empty ''
                                  @ ''directory: '' @ error_string err) w8))"
proof -
  define w1 where "w1 = log Info (''[worktree-set] Creating feature directory: '' @ featurePath) w"
  define entries where
    "entries = (case readdir_result h featurePath (files w) of Inl err \<Rightarrow> [] | Inr names \<Rightarrow> names)"
  define w2 where "w2 = emit (Readdir featurePath) w1"
  obtain found w3 where cw: "contains_worktrees h featurePath entries w2 = (found, w3)"
    by (cases "contains_worktrees h featurePath entries w2")
  have "files w2 = files w"
    by (simp add: w2_def w1_def)
  then have "\<not> found"
    using fresh fst_contains_worktrees [of h featurePath entries w2] cw
    by (simp add: already_has_worktrees_def entries_def)
  obtain checks where checks: "events w3 = events w2 @ checks" "list_all inner_event checks"
    using emitsD [OF emits_contains_worktrees [OF cw]] by blast
  have rd: "readdir h featurePath w1 = (readdir_result h featurePath (files w), w2)"
    by (simp add: readdir_def w2_def w1_def)
  obtain mr w4 where mk: "mkdir h featurePath w3 = (mr, w4)"
    by (cases "mkdir h featurePath w3")
  obtain results successCount failureCount w5 where loop:
    "create_repos h options featurePath (cso_repos options) ([], 0, 0) w4
       = ((results, successCount, failureCount), w5)"
    by (cases "create_repos h options featurePath (cso_repos options) ([], 0, 0) w4") auto
  have main: "mr = Inr ()
    \<and> res = \<lparr>scr_featurePath = featurePath, scr_results = results,
                scr_successCount = successCount, scr_failureCount = failureCount\<rparr>
    \<and> w' = (let w7 = foldl (\<lambda>v result. emit (result_line result) v)
                          (emit (summary_line successCount failureCount) w5) results
              in if successCount > 0 then
                   (case openTerminal h featurePath ''opencode''
                           (sanitizeBranchForDir (cso_branch options))
                           (log Info (''[worktree-set] Launching opencode in ''
                                      @ featurePath) w7) of
                      (None, w8) \<Rightarrow> w8
                    | (Some err, w8) \<Rightarrow>
                        log Warn (''[worktree-set] Failed to open terminal: '' @ err) w8)
                 else
                   (case rm h featurePath
                           (log Error (''[worktree-set] All repositories failed, ''
                                       @ ''removing empty directory: '' @ featurePath) w7) of
                      (Inr u', w8) \<Rightarrow> w8
                    | (Inl err, w8) \<Rightarrow>
                        log Warn (''[worktree-set] Failed to remove empty ''
                                  @ ''directory: '' @ error_string err) w8))"
    using run valid rd cw \<open>\<not> found\<close> mk loop
    unfolding createWorktreeSet_def Let_def w1_def w2_def entries_def fp [symmetric]
    by (cases mr) (simp_all del: append.simps)
  then have "mr = Inr ()" by simp
  note mr = this
  from main have "res = \<lparr>scr_featurePath = featurePath, scr_results = results,
                scr_successCount = successCount, scr_failureCount = failureCount\<rparr>"
    and "w' = (let w7 = foldl (\<lambda>v result. emit (result_line result) v)
                          (emit (summary_line successCount failureCount) w5) results
              in if successCount > 0 then
                   (case openTerminal h featurePath ''opencode''
                           (sanitizeBranchForDir (cso_branch options))
                           (log Info (''[worktree-set] Launching opencode in ''
                                      @ featurePath) w7) of
                      (None, w8) \<Rightarrow> w8
                    | (Some err, w8) \<Rightarrow>
                        log Warn (''[worktree-set] Failed to open terminal: '' @ err) w8)
                 else
                   (case rm h featurePath
                           (log Error (''[worktree-set] All repositories failed, ''
                                       @ ''removing empty directory: '' @ featurePath) w7) of
                      (Inr u', w8) \<Rightarrow> w8
                    | (Inl err, w8) \<Rightarrow>
                        log Warn (''[worktree-set] Failed to remove empty ''
                                  @ ''directory: '' @ error_string err) w8))"
    by blast+
  moreover have "events w3 = events w @ [Log Info (''[worktree-set] Creating feature directory: ''
                               @ featurePath), Readdir featurePath] @ checks"
    using checks(1) by (simp add: w2_def w1_def log_def emit_def)
  ultimately show ?thesis
    using checks(2) mk [unfolded mr] loop
    by (intro exI [of _ w3] exI [of _ w4] exI [of _ results] exI [of _ successCount]
        exI [of _ failureCount] exI [of _ w5] exI [of _ checks] conjI)
qed

lemma mkdir_ok_events:
  "mkdir h p w = (Inr u, w') \<Longrightarrow> events w' = events w @ [Mkdir p]"
  by (auto simp: mkdir_def emit_def split: option.splits)

text \<open>
  The trace of a call of \<open>createWorktreeSet\<close> that has validated the branch, found no
  worktree in the feature directory and created it: the set-up, the work on the
  repositories, the summary, and then either the \<open>rm\<close> of the feature directory or the
  opening of the terminal, followed by warnings only.
\<close>

lemma createWorktreeSet_epilogue:
  assumes fp: "featurePath = getFeaturePath (cso_workspaceRoot options) (cso_branch options)"
    and valid: "safeParse branchNameSchema (cso_branch options) = Inr (cso_branch options)"
    and fresh: "\<not> already_has_worktrees h featurePath (files w)"
    and run: "createWorktreeSet h options w = (Inr res, w')"
  shows "scr_featurePath res = featurePath
     \<and> map rr_repo (scr_results res) = cso_repos options
     \<and> scr_successCount res = length (filter rr_success (scr_results res))
     \<and> (\<exists>checks work tail.
          list_all inner_event checks \<and> list_all inner_event work \<and> list_all is_warning tail
          \<and> new_events w w' =
              [Log Info (''[worktree-set] Creating feature directory: '' @ featurePath),
               Readdir featurePath] @ checks @ [Mkdir featurePath] @ work
              @ [summary_line (scr_successCount res) (scr_failureCount res)]
              @ map result_line (scr_results res)
              @ (if 0 < scr_successCount res
                 then [Log Info (''[worktree-set] Launching opencode in '' @ featurePath),
                       OpenTerminal featurePath ''opencode''
                         (sanitizeBranchForDir (cso_branch options))]
                 else [Log Error (''[worktree-set] All repositories failed, ''
                                  @ ''removing empty directory: '' @ featurePath),
                       Rm featurePath])
              @ tail)
     \<and> (scr_successCount res = 0 \<and> (\<forall>fs. rm_error h featurePath fs = None)
          \<longrightarrow> files w' featurePath = None)"
proof -
  from createWorktreeSet_unfold [OF valid fp fresh run]
  obtain w3 w4 results sc fc w5 checks where
    ev3: "events w3 = events w @ [Log Info (''[worktree-set] Creating feature directory: ''
                               @ featurePath), Readdir featurePath] @ checks"
    and checks: "list_all inner_event checks"
    and mk: "mkdir h featurePath w3 = (Inr (), w4)"
    and loop: "create_repos h options featurePath (cso_repos options) ([], 0, 0) w4
            = ((results, sc, fc), w5)"
    and res: "res = \<lparr>scr_featurePath = featurePath, scr_results = results,
                scr_successCount = sc, scr_failureCount = fc\<rparr>"
    and w': "w' = (let w7 = foldl (\<lambda>v result. emit (result_line result) v)
                          (emit (summary_line sc fc) w5) results
              in if sc > 0 then
                   (case openTerminal h featurePath ''opencode''
                           (sanitizeBranchForDir (cso_branch options))
                           (log Info (''[worktree-set] Launching opencode in ''
                                      @ featurePath) w7) of
                      (None, w8) \<Rightarrow> w8
                    | (Some err, w8) \<Rightarrow>
                        log Warn (''[worktree-set] Failed to open terminal: '' @ err) w8)
                 else
                   (case rm h featurePath
                           (log Error (''[worktree-set] All repositories failed, ''
                                       @ ''removing empty directory: '' @ featurePath) w7) of
                      (Inr u', w8) \<Rightarrow> w8
                    | (Inl err, w8) \<Rightarrow>
                        log Warn (''[worktree-set] Failed to remove empty ''
                                  @ ''directory: '' @ error_string err) w8))"
    by blast
  define w7 where "w7 = foldl (\<lambda>v result. emit (result_line result) v)
                          (emit (summary_line sc fc) w5) results"
  obtain work where work: "events w5 = events w4 @ work" "list_all inner_event work"
    using emitsD [OF emits_create_repos [OF loop]] by blast
  define prefix where "prefix = [Log Info (''[worktree-set] Creating feature directory: ''
      @ featurePath), Readdir featurePath] @ checks @ [Mkdir featurePath] @ work
      @ [summary_line sc fc] @ map result_line results"
  have ev7: "events w7 = events w @ prefix"
    unfolding w7_def prefix_def events_result_lines
    using work(1) mkdir_ok_events [OF mk] ev3 by (simp add: emit_def)
  from create_repos_counts [OF loop]
  have counts: "map rr_repo results = cso_repos options" "sc = length (filter rr_success results)"
    by auto
  have shape: "\<exists>tail. list_all is_warning tail
      \<and> new_events w w' = prefix
          @ (if 0 < sc
             then [Log Info (''[worktree-set] Launching opencode in '' @ featurePath),
                   OpenTerminal featurePath ''opencode''
                     (sanitizeBranchForDir (cso_branch options))]
             else [Log Error (''[worktree-set] All repositories failed, ''
                              @ ''removing empty directory: '' @ featurePath),
                   Rm featurePath])
          @ tail"
    and gone: "sc = 0 \<and> (\<forall>fs. rm_error h featurePath fs = None) \<longrightarrow> files w' featurePath = None"
  proof -
    have w'2: "w' = (if sc > 0 then
                   (case openTerminal h featurePath ''opencode''
                           (sanitizeBranchForDir (cso_branch options))
                           (log Info (''[worktree-set] Launching opencode in ''
                                      @ featurePath) w7) of
                      (None, w8) \<Rightarrow> w8
                    | (Some err, w8) \<Rightarrow>
                        log Warn (''[worktree-set] Failed to open terminal: '' @ err) w8)
                 else
                   (case rm h featurePath
                           (log Error (''[worktree-set] All repositories failed, ''
                                       @ ''removing empty directory: '' @ featurePath) w7) of
                      (Inr u', w8) \<Rightarrow> w8
                    | (Inl err, w8) \<Rightarrow>
                        log Warn (''[worktree-set] Failed to remove empty ''
                                  @ ''directory: '' @ error_string err) w8))"
      unfolding w' w7_def Let_def ..
    have "(\<exists>tail. list_all is_warning tail
      \<and> events w' = events w @ prefix
          @ (if 0 < sc
             then [Log Info (''[worktree-set] Launching opencode in '' @ featurePath),
                   OpenTerminal featurePath ''opencode''
                     (sanitizeBranchForDir (cso_branch options))]
             else [Log Error (''[worktree-set] All repositories failed, ''
                              @ ''removing empty directory: '' @ featurePath),
                   Rm featurePath])
          @ tail)
      \<and> (sc = 0 \<and> (\<forall>fs. rm_error h featurePath fs = None) \<longrightarrow> files w' featurePath = None)"
    proof (cases "0 < sc")
      case True
      show ?thesis
      proof (cases "terminal_result h featurePath ''opencode''
                      (sanitizeBranchForDir (cso_branch options)) (files w7)")
        case None
        have "events w' = events w @ prefix
            @ [Log Info (''[worktree-set] Launching opencode in '' @ featurePath),
               OpenTerminal featurePath ''opencode'' (sanitizeBranchForDir (cso_branch options))]
            @ []"
          unfolding w'2 using True None ev7
          by (simp add: openTerminal_def log_def emit_def del: append.simps)
        then show ?thesis
          using True by (intro conjI exI [of _ "[]"]) simp_all
      next
        case (Some err)
        have "events w' = events w @ prefix
            @ [Log Info (''[worktree-set] Launching opencode in '' @ featurePath),
               OpenTerminal featurePath ''opencode'' (sanitizeBranchForDir (cso_branch options))]
            @ [Log Warn (''[worktree-set] Failed to open terminal: '' @ err)]"
          unfolding w'2 using True Some ev7
          by (simp add: openTerminal_def log_def emit_def del: append.simps)
        then show ?thesis
          using True
          by (intro conjI exI [of _ "[Log Warn (''[worktree-set] Failed to open terminal: '' @ err)]"])
             simp_all
      qed
    next
      case False
      show ?thesis
      proof (cases "rm_error h featurePath (files w7)")
        case None
        have "events w' = events w @ prefix
            @ [Log Error (''[worktree-set] All repositories failed, ''
                          @ ''removing empty directory: '' @ featurePath), Rm featurePath]
            @ []"
          and "files w' featurePath = None"
          unfolding w'2 using False None ev7
          by (simp_all add: rm_def log_def emit_def remove_tree_gone del: append.simps)
        then show ?thesis
          using False by (intro conjI exI [of _ "[]"]) simp_all
      next
        case (Some err)
        have "events w' = events w @ prefix
            @ [Log Error (''[worktree-set] All repositories failed, ''
                          @ ''removing empty directory: '' @ featurePath), Rm featurePath]
            @ [Log Warn (''[worktree-set] Failed to remove empty ''
                         @ ''directory: '' @ error_string err)]"
          unfolding w'2 using False Some ev7
          by (simp add: rm_def log_def emit_def del: append.simps)
        moreover have "sc = 0 \<and> (\<forall>fs. rm_error h featurePath fs = None)
            \<longrightarrow> files w' featurePath = None"
          using Some by (metis option.distinct(1))
        ultimately show ?thesis
          by (intro conjI exI [of _ "[Log Warn (''[worktree-set] Failed to remove empty ''
                         @ ''directory: '' @ error_string err)]"])
             (simp_all add: False del: append.simps)
      qed
    qed
    then show "\<exists>tail. list_all is_warning tail
      \<and> new_events w w' = prefix
          @ (if 0 < sc
             then [Log Info (''[worktree-set] Launching opencode in '' @ featurePath),
                   OpenTerminal featurePath ''opencode''
                     (sanitizeBranchForDir (cso_branch options))]
             else [Log Error (''[worktree-set] All repositories failed, ''
                              @ ''removing empty directory: '' @ featurePath),
                   Rm featurePath])
          @ tail"
      and "sc = 0 \<and> (\<forall>fs. rm_error h featurePath fs = None) \<longrightarrow> files w' featurePath = None"
      by (auto simp: new_events_def simp del: append.simps)
  qed
  from shape obtain tail where tail: "list_all is_warning tail"
    "new_events w w' = prefix
          @ (if 0 < sc
             then [Log Info (''[worktree-set] Launching opencode in '' @ featurePath),
                   OpenTerminal featurePath ''opencode''
                     (sanitizeBranchForDir (cso_branch options))]
             else [Log Error (''[worktree-set] All repositories failed, ''
                              @ ''removing empty directory: '' @ featurePath),
                   Rm featurePath])
          @ tail"
    by blast
  have p4: "\<exists>checks work tail.
          list_all inner_event checks \<and> list_all inner_event work \<and> list_all is_warning tail
          \<and> new_events w w' =
              [Log Info (''[worktree-set] Creating feature directory: '' @ featurePath),
               Readdir featurePath] @ checks @ [Mkdir featurePath] @ work
              @ [summary_line (scr_successCount res) (scr_failureCount res)]
              @ map result_line (scr_results res)
              @ (if 0 < scr_successCount res
                 then [Log Info (''[worktree-set] Launching opencode in '' @ featurePath),
                       OpenTerminal featurePath ''opencode''
                         (sanitizeBranchForDir (cso_branch options))]
                 else [Log Error (''[worktree-set] All repositories failed, ''
                                  @ ''removing empty directory: '' @ featurePath),
                       Rm featurePath])
              @ tail"
    unfolding res
    by (intro exI [of _ checks] exI [of _ work] exI [of _ tail] conjI checks work(2) tail(1))
       (simp add: tail(2) prefix_def del: append.simps)
  show ?thesis
    apply (intro conjI)
        apply (simp add: res)
       apply (simp add: res counts)
      apply (simp add: res counts)
     apply (rule p4)
    using gone apply (simp add: res)
    done
qed

text \<open>Where the \<open>mkdir\<close> of the feature directory does not throw, the call returns.\<close>

lemma createWorktreeSet_returns:
  assumes valid: "safeParse branchNameSchema (cso_branch options) = Inr (cso_branch options)"
    and fp: "featurePath = getFeaturePath (cso_workspaceRoot options) (cso_branch options)"
    and mkdir_ok: "mkdir_error h featurePath (files w) = None"
  shows "\<exists>res w'. createWorktreeSet h options w = (Inr res, w')"
proof -
  define w1 where "w1 = log Info (''[worktree-set] Creating feature directory: '' @ featurePath) w"
  define entries where
    "entries = (case readdir_result h featurePath (files w) of Inl err \<Rightarrow> [] | Inr names \<Rightarrow> names)"
  define w2 where "w2 = emit (Readdir featurePath) w1"
  obtain found w3 where cw: "contains_worktrees h featurePath entries w2 = (found, w3)"
    by (cases "contains_worktrees h featurePath entries w2")
  have "files w2 = files w"
    by (simp add: w2_def w1_def)
  then have "files w3 = files w"
    using files_contains_worktrees [OF cw] by simp
  then have mk: "mkdir h featurePath w3
      = (Inr (), (emit (Mkdir featurePath) w3)\<lparr>files := make_directories featurePath (files w3)\<rparr>)"
    using mkdir_ok by (simp add: mkdir_def)
  have rd: "readdir h featurePath w1 = (readdir_result h featurePath (files w), w2)"
    by (simp add: readdir_def w2_def w1_def)
  obtain results successCount failureCount w5 where loop:
    "create_repos h options featurePath (cso_repos options) ([], 0, 0)
       ((emit (Mkdir featurePath) w3)\<lparr>files := make_directories featurePath (files w3)\<rparr>)
       = ((results, successCount, failureCount), w5)"
    by (cases "create_repos h options featurePath (cso_repos options) ([], 0, 0)
       ((emit (Mkdir featurePath) w3)\<lparr>files := make_directories featurePath (files w3)\<rparr>)") auto
  show ?thesis
    using valid rd cw mk loop
    unfolding createWorktreeSet_def Let_def w1_def w2_def entries_def fp [symmetric]
    by (cases found) (simp_all del: append.simps)
qed

text \<open>
  Claim C6, past the check for worktrees already there and with the outcome of the
  deletion told apart.  Where the branch is valid, no entry of the feature directory
  holds a \<open>.git\<close> and the \<open>mkdir\<close> of the feature directory does not throw,
  \<open>createWorktreeSet\<close> returns a result for the feature directory with one entry per
  repository, in order, and \<open>successCount\<close> the number of entries marked successful.  The
  trace of the call is: the set-up, the work on the repositories, the summary, and then
  either, when no repository succeeded, the recursive forced \<open>rm\<close> of the feature
  directory, or, when one did, one \<open>openTerminal\<close> in the feature directory with the
  command \<open>opencode\<close> and no removal.  Only warnings follow.  Where no repository
  succeeded and the \<open>rm\<close> does not throw, the feature directory does not exist after the
  call.
\<close>

theorem createWorktreeSet_cleanup_or_terminal:
  assumes fp: "featurePath = getFeaturePath (cso_workspaceRoot options) (cso_branch options)"
    and valid: "safeParse branchNameSchema (cso_branch options) = Inr (cso_branch options)"
    and fresh: "\<not> already_has_worktrees h featurePath (files w)"
    and mkdir_ok: "mkdir_error h featurePath (files w) = None"
  shows "\<exists>res w'. createWorktreeSet h options w = (Inr res, w')
     \<and> scr_featurePath res = featurePath
     \<and> map rr_repo (scr_results res) = cso_repos options
     \<and> scr_successCount res = length (filter rr_success (scr_results res))
     \<and> (\<exists>checks work tail.
          list_all inner_event checks \<and> list_all inner_event work \<and> list_all is_warning tail
          \<and> new_events w w' =
              [Log Info (''[worktree-set] Creating feature directory: '' @ featurePath),
               Readdir featurePath] @ checks @ [Mkdir featurePath] @ work
              @ [summary_line (scr_successCount res) (scr_failureCount res)]
              @ map result_line (scr_results res)
              @ (if 0 < scr_successCount res
                 then [Log Info (''[worktree-set] Launching opencode in '' @ featurePath),
                       OpenTerminal featurePath ''opencode''
                         (sanitizeBranchForDir (cso_branch options))]
                 else [Log Error (''[worktree-set] All repositories failed, ''
                                  @ ''removing empty directory: '' @ featurePath),
                       Rm featurePath])
              @ tail)
     \<and> (scr_successCount res = 0 \<and> (\<forall>fs. rm_error h featurePath fs = None)
          \<longrightarrow> files w' featurePath = None)"
proof -
  obtain res w' where run: "createWorktreeSet h options w = (Inr res, w')"
    using createWorktreeSet_returns [OF valid fp mkdir_ok] by blast
  note e = createWorktreeSet_epilogue [OF fp valid fresh run]
  show ?thesis
    by (rule exI [of _ res], rule exI [of _ w'], rule conjI [OF run e])
qed

theorem createWorktreeSet_cleanup_or_terminal_witness:
  "''/ws/feature-x'' = getFeaturePath (cso_workspaceRoot example_set_options)
                         (cso_branch example_set_options)
   \<and> safeParse branchNameSchema (cso_branch example_set_options)
       = Inr (cso_branch example_set_options)
   \<and> \<not> already_has_worktrees quiet_host ''/ws/feature-x'' (files empty_world)
   \<and> mkdir_error quiet_host ''/ws/feature-x'' (files empty_world) = None
   \<and> fst (createWorktreeSet quiet_host example_set_options empty_world)
       = Inr \<lparr>scr_featurePath = ''/ws/feature-x'',
              scr_results =
                [\<lparr>rr_repo = ''api'', rr_success = False, rr_worktreePath = None,
                  rr_error = Some ''fatal: not a git repository''\<rparr>],
              scr_successCount = 0, scr_failureCount = 1\<rparr>
   \<and> files (snd (createWorktreeSet quiet_host example_set_options empty_world))
         ''/ws/feature-x'' = None"
proof -
  have fp: "''/ws/feature-x'' = getFeaturePath (cso_workspaceRoot example_set_options)
                         (cso_branch example_set_options)"
    by code_simp
  have valid: "safeParse branchNameSchema (cso_branch example_set_options)
       = Inr (cso_branch example_set_options)"
    by code_simp
  have fresh: "\<not> already_has_worktrees quiet_host ''/ws/feature-x'' (files empty_world)"
    by (simp add: already_has_worktrees_def quiet_host_def)
  have mkdir_ok: "mkdir_error quiet_host ''/ws/feature-x'' (files empty_world) = None"
    by (simp add: quiet_host_def)
  have res: "fst (createWorktreeSet quiet_host example_set_options empty_world)
       = Inr \<lparr>scr_featurePath = ''/ws/feature-x'',
              scr_results =
                [\<lparr>rr_repo = ''api'', rr_success = False, rr_worktreePath = None,
                  rr_error = Some ''fatal: not a git repository''\<rparr>],
              scr_successCount = 0, scr_failureCount = 1\<rparr>"
    (is "_ = Inr ?res")
    by code_simp
  have rm_ok: "\<forall>fs. rm_error quiet_host ''/ws/feature-x'' fs = None"
    by (simp add: quiet_host_def)
  obtain r w' where run: "createWorktreeSet quiet_host example_set_options empty_world = (Inr r, w')"
    and gone: "scr_successCount r = 0 \<and> (\<forall>fs. rm_error quiet_host ''/ws/feature-x'' fs = None)
                 \<longrightarrow> files w' ''/ws/feature-x'' = None"
    using createWorktreeSet_cleanup_or_terminal [OF fp valid fresh mkdir_ok] by blast
  from run res have r: "r = ?res"
    by simp
  have "scr_successCount r = 0"
    unfolding r by simp
  with gone rm_ok have "files w' ''/ws/feature-x'' = None"
    by simp
  with run have gone':
    "files (snd (createWorktreeSet quiet_host example_set_options empty_world))
       ''/ws/feature-x'' = None"
    by simp
  from fp valid fresh mkdir_ok res gone' show ?thesis
    by (intro conjI) assumption+
qed

text \<open>
  The claim as first stated, with the feature directory gone whenever the call is past
  the validation of the branch and no repository succeeded, fails in two places.  Where
  the \<open>rm\<close> throws, the error is caught and logged as a warning, and the feature
  directory the call has created is still there.  Where the feature directory holds a
  worktree already, the call marks every repository failed and returns before it
  creates or removes anything.
\<close>

theorem createWorktreeSet_directory_remains_counterexample:
  "safeParse branchNameSchema (cso_branch example_set_options)
     = Inr (cso_branch example_set_options)
   \<and> files empty_world ''/ws/feature-x'' = None
   \<and> fst (createWorktreeSet failing_rm_host example_set_options empty_world)
       = Inr \<lparr>scr_featurePath = ''/ws/feature-x'',
              scr_results =
                [\<lparr>rr_repo = ''api'', rr_success = False, rr_worktreePath = None,
                  rr_error = Some ''fatal: not a git repository''\<rparr>],
              scr_successCount = 0, scr_failureCount = 1\<rparr>
   \<and> files (snd (createWorktreeSet failing_rm_host example_set_options empty_world))
         ''/ws/feature-x'' = Some Dir
   \<and> fst (createWorktreeSet feature_host example_set_options feature_world)
       = Inr \<lparr>scr_featurePath = ''/ws/feature-x'',
              scr_results =
                [\<lparr>rr_repo = ''api'', rr_success = False, rr_worktreePath = None,
                  rr_error = Some ''Feature directory already contains worktrees''\<rparr>],
              scr_successCount = 0, scr_failureCount = 1\<rparr>
   \<and> events (snd (createWorktreeSet feature_host example_set_options feature_world))
       = [Log Info ''[worktree-set] Creating feature directory: /ws/feature-x'',
          Readdir ''/ws/feature-x'', Exists ''/ws/feature-x/api/.git'',
          Log Error ''[worktree-set] Feature directory already contains worktrees: /ws/feature-x'']
   \<and> files (snd (createWorktreeSet feature_host example_set_options feature_world))
         ''/ws/feature-x'' = Some Dir"
proof -
  have 1: "safeParse branchNameSchema (cso_branch example_set_options)
       = Inr (cso_branch example_set_options)"
    by code_simp
  have 2: "files empty_world ''/ws/feature-x'' = None"
    by (simp add: empty_world_def)
  have 3: "fst (createWorktreeSet failing_rm_host example_set_options empty_world)
       = Inr \<lparr>scr_featurePath = ''/ws/feature-x'',
              scr_results =
                [\<lparr>rr_repo = ''api'', rr_success = False, rr_worktreePath = None,
                  rr_error = Some ''fatal: not a git repository''\<rparr>],
              scr_successCount = 0, scr_failureCount = 1\<rparr>"
    by code_simp
  have 4: "files (snd (createWorktreeSet failing_rm_host example_set_options empty_world))
         ''/ws/feature-x'' = Some Dir"
    by code_simp
  have 5: "fst (createWorktreeSet feature_host example_set_options feature_world)
       = Inr \<lparr>scr_featurePath = ''/ws/feature-x'',
              scr_results =
                [\<lparr>rr_repo = ''api'', rr_success = False, rr_worktreePath = None,
                  rr_error = Some ''Feature directory already contains worktrees''\<rparr>],
              scr_successCount = 0, scr_failureCount = 1\<rparr>"
    by code_simp
  have 6: "events (snd (createWorktreeSet feature_host example_set_options feature_world))
       = [Log Info ''[worktree-set] Creating feature directory: /ws/feature-x'',
          Readdir ''/ws/feature-x'', Exists ''/ws/feature-x/api/.git'',
          Log Error ''[worktree-set] Feature directory already contains worktrees: /ws/feature-x'']"
    by code_simp
  have 7: "files (snd (createWorktreeSet feature_host example_set_options feature_world))
         ''/ws/feature-x'' = Some Dir"
    by code_simp
  from 1 2 3 4 5 6 7 show ?thesis
    by (intro conjI) assumption+
qed

section \<open>Results on the linking of directories\<close>


end
